theory Spec2Isabelle
  imports Main "HOL-Library.Word"
begin

unbundle bit_operations_syntax

section \<open>JavaScript values used by the sources\<close>

text \<open>
  A value of TypeScript type \<open>string | undefined\<close> is a \<open>string option\<close>, with
  \<open>None\<close> for \<open>undefined\<close>. In a condition, \<open>undefined\<close> and the empty string
  are both falsy.
\<close>

definition truthy :: "string option \<Rightarrow> bool" where
  "truthy v = (case v of None \<Rightarrow> False | Some s \<Rightarrow> s \<noteq> [])"

text \<open>The exceptions the modelled functions can raise.\<close>

datatype error =
    TypeError
  | MalformedVersion string
  | MissingNut
  | MissingTif
  | MissingQry

subsection \<open>Strings\<close>

text \<open>
  Strings are lists of 8-bit characters. \<open>split_on c s\<close> is \<open>s.split(c)\<close> for a
  separator of one character: the pieces between the occurrences of \<open>c\<close>, so the
  empty string gives one empty piece.
\<close>

function split_on :: "char \<Rightarrow> string \<Rightarrow> string list" where
  "split_on c s =
     (case dropWhile (\<lambda>x. x \<noteq> c) s of
        [] \<Rightarrow> [takeWhile (\<lambda>x. x \<noteq> c) s]
      | _ # rest \<Rightarrow> takeWhile (\<lambda>x. x \<noteq> c) s # split_on c rest)"
  by pat_completeness auto
termination
proof (relation "measure (\<lambda>(c, s). length s)")
  show "wf (measure (\<lambda>(c, s). length s))" by simp
next
  fix c :: char and s :: string and x rest
  assume "dropWhile (\<lambda>x. x \<noteq> c) s = x # rest"
  then have "length (dropWhile (\<lambda>x. x \<noteq> c) s) = Suc (length rest)" by simp
  moreover have "length (dropWhile (\<lambda>x. x \<noteq> c) s) \<le> length s" by (rule length_dropWhile_le)
  ultimately show "((c, rest), (c, s)) \<in> measure (\<lambda>(c, s). length s)" by simp
qed

declare split_on.simps [simp del]

text \<open>\<open>xs[i]\<close> on an array: \<open>undefined\<close> past the end.\<close>

definition js_index :: "'a list \<Rightarrow> nat \<Rightarrow> 'a option" where
  "js_index xs i = (if i < length xs then Some (xs ! i) else None)"

definition is_upper :: "char \<Rightarrow> bool" where
  "is_upper c = (65 \<le> (of_char c :: nat) \<and> (of_char c :: nat) \<le> 90)"

definition is_lower :: "char \<Rightarrow> bool" where
  "is_lower c = (97 \<le> (of_char c :: nat) \<and> (of_char c :: nat) \<le> 122)"

definition is_digit :: "char \<Rightarrow> bool" where
  "is_digit c = (48 \<le> (of_char c :: nat) \<and> (of_char c :: nat) \<le> 57)"

text \<open>\<open>toLowerCase\<close> on the ASCII letters.\<close>

definition lower_char :: "char \<Rightarrow> char" where
  "lower_char c = (if is_upper c then char_of ((of_char c :: nat) + 32) else c)"

definition toLowerCase :: "string \<Rightarrow> string" where
  "toLowerCase s = map lower_char s"

subsection \<open>Numbers\<close>

text \<open>
  A JavaScript number with an integer value, an infinity, or \<open>NaN\<close>. The sources'
  numbers are doubles: an integer is a double when it is written with at most 53
  significant bits, so every integer up to \<open>2 ^ 53\<close> is one, and above that only every
  second, fourth, ... integer is.
\<close>

datatype jsnum = Num int | NaN | PosInf | NegInf

text \<open>
  Rounding a magnitude (an integer that is not negative) to the nearest double, ties to
  the even mantissa. \<open>mantissa_shift n\<close> is the number of low bits that do not fit into
  the 53 bits of the mantissa. A result of \<open>2 ^ 1024\<close> or more is an infinity.
\<close>

function mantissa_shift :: "int \<Rightarrow> nat" where
  "mantissa_shift n = (if n < 2 ^ 53 then 0 else Suc (mantissa_shift (n div 2)))"
  by pat_completeness auto
termination
  by (relation "measure (\<lambda>n. nat n)") auto

declare mantissa_shift.simps [simp del]

definition round_magnitude :: "int \<Rightarrow> int" where
  "round_magnitude n =
     (let s = mantissa_shift n; q = n div 2 ^ s; r = n mod 2 ^ s
      in if 2 ^ s < 2 * r \<or> (2 * r = 2 ^ s \<and> odd q) then (q + 1) * 2 ^ s else q * 2 ^ s)"

definition double_of_int :: "int \<Rightarrow> jsnum" where
  "double_of_int i =
     (if i < 0
      then (if 2 ^ 1024 \<le> round_magnitude (- i) then NegInf
            else Num (- round_magnitude (- i)))
      else (if 2 ^ 1024 \<le> round_magnitude i then PosInf
            else Num (round_magnitude i)))"

text \<open>\<open>a <= b\<close> on numbers: false when either is \<open>NaN\<close>.\<close>

fun js_le :: "jsnum \<Rightarrow> jsnum \<Rightarrow> bool" where
  "js_le NaN b = False"
| "js_le a NaN = False"
| "js_le NegInf b = True"
| "js_le a PosInf = True"
| "js_le (Num x) (Num y) = (x \<le> y)"
| "js_le a b = False"

text \<open>\<open>i++\<close>: the sum \<open>i + 1\<close>, rounded to a double.\<close>

definition js_inc :: "jsnum \<Rightarrow> jsnum" where
  "js_inc a = (case a of Num i \<Rightarrow> double_of_int (i + 1) | NaN \<Rightarrow> NaN
               | PosInf \<Rightarrow> PosInf | NegInf \<Rightarrow> NegInf)"

definition digit_val :: "char \<Rightarrow> nat" where
  "digit_val c = (of_char c :: nat) - 48"

definition decimal_val :: "string \<Rightarrow> int" where
  "decimal_val s = foldl (\<lambda>acc c. 10 * acc + int (digit_val c)) 0 s"

text \<open>
  Modelled from the spec: \<open>Number(s)\<close> of the JavaScript runtime, on the text of a
  version token. The empty string converts to 0, a string of decimal digits to the
  double nearest to its value, and text that is no numeric literal to \<open>NaN\<close>. Numeric
  literals of other shapes (a sign, a fraction, an exponent, a radix prefix, white space
  around them) are not modelled and are taken to \<open>NaN\<close> as well.
\<close>

definition js_Number :: "string \<Rightarrow> jsnum" where
  "js_Number s = (if list_all is_digit s then double_of_int (decimal_val s) else NaN)"

text \<open>The decimal text of a number, as a template literal prints an integer.\<close>

function show_nat :: "nat \<Rightarrow> string" where
  "show_nat n =
     (if n < 10 then [char_of (48 + n)] else show_nat (n div 10) @ [char_of (48 + n mod 10)])"
  by pat_completeness auto
termination
  by (relation "measure (\<lambda>n. n)") auto

declare show_nat.simps [simp del]

definition show_int :: "int \<Rightarrow> string" where
  "show_int i = (if i < 0 then CHR ''-'' # show_nat (nat (- i)) else show_nat (nat i))"

definition is_hex_digit :: "char \<Rightarrow> bool" where
  "is_hex_digit c =
     (is_digit c \<or> (65 \<le> (of_char c :: nat) \<and> (of_char c :: nat) \<le> 70)
        \<or> (97 \<le> (of_char c :: nat) \<and> (of_char c :: nat) \<le> 102))"

definition hex_digit_val :: "char \<Rightarrow> nat" where
  "hex_digit_val c =
     (if is_digit c then (of_char c :: nat) - 48
      else if is_upper c then (of_char c :: nat) - 55
      else (of_char c :: nat) - 87)"

definition is_space :: "char \<Rightarrow> bool" where
  "is_space c = ((of_char c :: nat) \<in> {9, 10, 11, 12, 13, 32})"

text \<open>
  Modelled from the spec: \<open>parseInt(s, 16)\<close> of the JavaScript runtime. Leading white
  space is skipped, then a sign and a prefix \<open>0x\<close> are accepted, and the longest run of
  hexadecimal digits is read and rounded to a double; without a digit the result is
  \<open>NaN\<close>.
\<close>

definition js_parseInt16 :: "string \<Rightarrow> jsnum" where
  "js_parseInt16 s =
     (let s1 = dropWhile is_space s;
          neg = (take 1 s1 = ''-'');
          s2 = (if take 1 s1 = ''-'' \<or> take 1 s1 = ''+'' then drop 1 s1 else s1);
          s3 = (if take 2 s2 = ''0x'' \<or> take 2 s2 = ''0X'' then drop 2 s2 else s2);
          ds = takeWhile is_hex_digit s3;
          v = foldl (\<lambda>acc c. 16 * acc + int (hex_digit_val c)) 0 ds
      in if ds = [] then NaN else double_of_int (if neg then - v else v))"

subsection \<open>Base64url\<close>

definition base64url_alphabet :: string where
  "base64url_alphabet = ''ABCDEFGHIJKLMNOPQRSTUVWXYZabcdefghijklmnopqrstuvwxyz0123456789-_''"

definition b64 :: "nat \<Rightarrow> char" where
  "b64 n = base64url_alphabet ! (n mod 64)"

text \<open>
  Modelled from the spec: \<open>encode\<close> of the base64-url package, which is not among the
  sources: the base64 text of the bytes with \<open>+\<close> and \<open>/\<close> replaced by \<open>-\<close> and
  \<open>_\<close>, and without padding.
\<close>

fun base64url_encode :: "string \<Rightarrow> string" where
  "base64url_encode [] = []"
| "base64url_encode [a] =
     (let x = (of_char a :: nat) in [b64 (x div 4), b64 ((x mod 4) * 16)])"
| "base64url_encode [a, b] =
     (let x = (of_char a :: nat); y = (of_char b :: nat)
      in [b64 (x div 4), b64 ((x mod 4) * 16 + y div 16), b64 ((y mod 16) * 4)])"
| "base64url_encode (a # b # c # rest) =
     (let x = (of_char a :: nat); y = (of_char b :: nat); z = (of_char c :: nat)
      in [b64 (x div 4), b64 ((x mod 4) * 16 + y div 16),
          b64 ((y mod 16) * 4 + z div 64), b64 (z mod 64)] @ base64url_encode rest)"

section \<open>\<open>SqrlUrlFactory\<close>: generating a SQRL URL\<close>

text \<open>
  The static \<open>create\<close>. The optional parameters are \<open>None\<close> when absent; the nut is
  taken as its text, and \<open>domainExtension\<close> as an integer.
\<close>

definition create ::
  "bool \<Rightarrow> string \<Rightarrow> string \<Rightarrow> string option \<Rightarrow> int option \<Rightarrow> string option \<Rightarrow> string" where
  "create secure domain serverNut pathString domainExtension serverFriendlyName =
     (let scheme = (if secure then ''sqrl'' else ''qrl'');
          p0 = (case pathString of None \<Rightarrow> [] | Some p \<Rightarrow> p);
          p1 = (if length p0 > 0 \<and> take 1 p0 \<noteq> ''/'' then CHR ''/'' # p0 else p0);
          p2 = (if p1 \<noteq> [] \<and> last p1 = CHR ''?'' then butlast p1 else p1);
          domainExt =
            (case domainExtension of
               None \<Rightarrow> []
             | Some x \<Rightarrow>
                 if length p2 > 0 \<and> x \<noteq> 0 \<and> x > 0
                 then ''&x='' @ show_int (min x (int (length p2)))
                 else []);
          sfn =
            (case serverFriendlyName of
               None \<Rightarrow> []
             | Some n \<Rightarrow> if length n > 0 then ''&sfn='' @ base64url_encode n else [])
      in scheme @ ''://'' @ domain @ p2 @ ''?nut='' @ serverNut @ domainExt @ sfn)"

section \<open>The mock client\<close>

subsection \<open>Parsing a URL\<close>

record Url =
  protocol :: "string option"
  auth :: "string option"
  hostname :: "string option"
  port :: "string option"
  path :: "string option"

definition is_scheme_char :: "char \<Rightarrow> bool" where
  "is_scheme_char c = (is_lower c \<or> is_upper c \<or> is_digit c \<or> c \<in> set ''.+-'')"

text \<open>The authority part split at its last \<open>@\<close>: user information, and host with port.\<close>

definition split_auth :: "string \<Rightarrow> string option \<times> string" where
  "split_auth a =
     (if CHR ''@'' \<in> set a
      then (Some (rev (drop 1 (dropWhile (\<lambda>c. c \<noteq> CHR ''@'') (rev a)))),
            rev (takeWhile (\<lambda>c. c \<noteq> CHR ''@'') (rev a)))
      else (None, a))"

text \<open>A host with a trailing \<open>:digits\<close> split into host name and port.\<close>

definition split_port :: "string \<Rightarrow> string \<times> string option" where
  "split_port h =
     (let ds = takeWhile is_digit (rev h); r = dropWhile is_digit (rev h)
      in if take 1 r = '':''
         then (rev (drop 1 r), if ds = [] then None else Some (rev ds))
         else (h, None))"

text \<open>
  Modelled from the spec: \<open>url.parse(s, false)\<close> of the Node runtime, which is not
  among the sources, on a URL with a scheme that the runtime does not treat specially
  (as \<open>sqrl\<close> and \<open>qrl\<close>): the scheme up to the first colon, lower-cased and with the
  colon; after an optional \<open>//\<close> the authority up to the first \<open>/\<close>, \<open>?\<close> or \<open>#\<close>,
  from which the user information and the port are split off and whose host name is
  lower-cased; and as \<open>path\<close> everything after the authority up to a \<open>#\<close>, or nothing
  when that is empty. A text without a scheme is a path only. The runtime's escaping
  of characters that may not occur in a URL and its cutting of host names with a label
  of more than 63 characters or a length of more than 255 are not modelled.
\<close>

definition url_parse :: "string \<Rightarrow> Url" where
  "url_parse s =
     (let pre = takeWhile is_scheme_char s; aft = dropWhile is_scheme_char s
      in if pre \<noteq> [] \<and> take 1 aft = '':'' then
           (let rest0 = drop 1 aft;
                rest = (if take 2 rest0 = ''//'' then drop 2 rest0 else rest0);
                authority = takeWhile (\<lambda>c. c \<notin> set ''/?#'') rest;
                tail = dropWhile (\<lambda>c. c \<notin> set ''/?#'') rest;
                (au, hostport) = split_auth authority;
                (h, po) = split_port hostport;
                pq = takeWhile (\<lambda>c. c \<noteq> CHR ''#'') tail
            in \<lparr>protocol = Some (toLowerCase pre @ '':''), auth = au,
                hostname = Some (toLowerCase h), port = po,
                path = (if pq = [] then None else Some pq)\<rparr>)
         else
           (let pq = takeWhile (\<lambda>c. c \<noteq> CHR ''#'') s
            in \<lparr>protocol = None, auth = None, hostname = None, port = None,
                path = (if pq = [] then None else Some pq)\<rparr>))"

subsection \<open>\<open>MockSQRLClient\<close>\<close>

definition or_empty :: "string option \<Rightarrow> string" where
  "or_empty v = (case v of None \<Rightarrow> [] | Some s \<Rightarrow> s)"

definition canonicalizeSqrlUrl :: "string \<Rightarrow> string" where
  "canonicalizeSqrlUrl sqrlUrl =
     (let urlObj = url_parse sqrlUrl;
          scheme = toLowerCase (or_empty (protocol urlObj));
          domain = toLowerCase (or_empty (hostname urlObj));
          p = (if truthy (path urlObj) then or_empty (path urlObj) else [])
      in scheme @ ''//'' @ domain @ p)"

text \<open>A template literal prints a missing host name as the word \<open>null\<close>.\<close>

definition generateServerContactUrl :: "string \<Rightarrow> string" where
  "generateServerContactUrl sqrlUrl =
     (let urlObj = url_parse sqrlUrl;
          scheme = (if toLowerCase (or_empty (protocol urlObj)) = ''qrl:'' then ''http'' else ''https'');
          p = (if truthy (path urlObj) then or_empty (path urlObj) else []);
          po = (if truthy (port urlObj) then CHR '':'' # or_empty (port urlObj) else [])
      in scheme @ ''://''
         @ (case hostname urlObj of None \<Rightarrow> ''null'' | Some h \<Rightarrow> h) @ po @ p)"

subsection \<open>Parsing the server's response\<close>

record ServerResponseInfo =
  supportedProtocolVersions :: "jsnum list"
  nextNut :: string
  tifValues :: jsnum
  nextRequestPathAndQuery :: string
  successfulAuthenticationRedirectUrl :: "string option"
  secretIndex :: "string option"
  serverUnlockKey :: "string option"
  askMessage :: "string option"
  askButton1Label :: "string option"
  askButton1Url :: "string option"
  askButton2Label :: "string option"
  askButton2Url :: "string option"

text \<open>
  The loop \<open>for (let i = lo; i <= hi; i++) supportedVersions.push(i)\<close>. The counter is
  a double, so above \<open>2 ^ 53\<close> the step \<open>i++\<close> can leave it as it is, and the loop then
  does not end: the function has no value (\<open>None\<close>) there. The array is taken to be
  unbounded.
\<close>

partial_function (option) push_range :: "jsnum \<Rightarrow> jsnum \<Rightarrow> jsnum list \<Rightarrow> jsnum list option" where
  "push_range i hi supportedVersions =
     (if js_le i hi then push_range (js_inc i) hi (supportedVersions @ [i])
      else Some supportedVersions)"

declare push_range.simps [code]

text \<open>
  The body of the \<open>forEach\<close> over the version tokens: \<open>None\<close> when the loop of a range
  does not end, otherwise the exception raised or the array after the pushes.
\<close>

definition expand_token :: "jsnum list \<Rightarrow> string \<Rightarrow> (error + jsnum list) option" where
  "expand_token supportedVersions ver =
     (let rangeLoHi = split_on CHR ''-'' ver
      in if length rangeLoHi = 1 then
           Some (Inr (supportedVersions @ [js_Number (rangeLoHi ! 0)]))
         else if length rangeLoHi = 2 then
           (let lo = js_Number (rangeLoHi ! 0); hi = js_Number (rangeLoHi ! 1)
            in case push_range lo hi supportedVersions of
                 None \<Rightarrow> None
               | Some supportedVersions' \<Rightarrow> Some (Inr supportedVersions'))
         else Some (Inl (MalformedVersion ver)))"

fun expand_versions :: "string list \<Rightarrow> jsnum list \<Rightarrow> (error + jsnum list) option" where
  "expand_versions [] supportedVersions = Some (Inr supportedVersions)"
| "expand_versions (ver # vers) supportedVersions =
     (case expand_token supportedVersions ver of
        None \<Rightarrow> None
      | Some (Inl e) \<Rightarrow> Some (Inl e)
      | Some (Inr supportedVersions') \<Rightarrow> expand_versions vers supportedVersions')"

text \<open>The version list of a \<open>ver\<close> value.\<close>

definition expand_ver :: "string \<Rightarrow> (error + jsnum list) option" where
  "expand_ver v = expand_versions (split_on CHR '','' v) []"





record AskFields =
  ask_message :: "string option"
  ask_button1Label :: "string option"
  ask_button1Url :: "string option"
  ask_button2Label :: "string option"
  ask_button2Url :: "string option"

definition no_ask :: AskFields where
  "no_ask = \<lparr>ask_message = None, ask_button1Label = None, ask_button1Url = None,
             ask_button2Label = None, ask_button2Url = None\<rparr>"

text \<open>
  The block that reads a truthy \<open>ask\<close> value. \<open>parts[1].split\<close> raises a
  \<open>TypeError\<close> when \<open>parts[1]\<close> is \<open>undefined\<close>.
\<close>

definition parse_ask :: "string \<Rightarrow> error + AskFields" where
  "parse_ask ask =
     (let parts = split_on CHR ''~'' ask;
          a0 = no_ask\<lparr>ask_message := js_index parts 0\<rparr>
      in case js_index parts 1 of
           None \<Rightarrow> Inl TypeError
         | Some p1 \<Rightarrow>
             (let button1Parts = split_on CHR '';'' p1;
                  a1 = a0\<lparr>ask_button1Label := js_index button1Parts 0\<rparr>;
                  a2 = (if length button1Parts > 1
                        then a1\<lparr>ask_button1Url := js_index button1Parts 1\<rparr> else a1)
              in if length parts > 2 then
                   (case js_index parts 2 of
                      None \<Rightarrow> Inl TypeError
                    | Some p2 \<Rightarrow>
                        (let button2Parts = split_on CHR '';'' p2;
                             a3 = a2\<lparr>ask_button2Label := js_index button2Parts 0\<rparr>
                         in Inr (if length button2Parts > 1
                                 then a3\<lparr>ask_button2Url := js_index button2Parts 1\<rparr>
                                 else a3)))
                 else Inr a2))"

definition read_ask :: "string option \<Rightarrow> error + AskFields" where
  "read_ask v = (if truthy v then parse_ask (or_empty v) else Inr no_ask)"

text \<open>
  \<open>parseServerBody\<close>, from the name-value pairs \<open>props\<close> that the body parser (which is
  not among the sources) returns for the body: the response, the exception raised, or
  \<open>None\<close> when the version expansion does not end.
\<close>

definition parseServerBody :: "(string \<rightharpoonup> string) \<Rightarrow> (error + ServerResponseInfo) option" where
  "parseServerBody props =
     (case props ''ver'' of
        None \<Rightarrow> Some (Inl TypeError)
      | Some v \<Rightarrow>
          (case expand_ver v of
             None \<Rightarrow> None
           | Some (Inl e) \<Rightarrow> Some (Inl e)
           | Some (Inr supportedVersions) \<Rightarrow>
               if \<not> truthy (props ''nut'') then Some (Inl MissingNut)
               else if \<not> truthy (props ''tif'') then Some (Inl MissingTif)
               else if \<not> truthy (props ''qry'') then Some (Inl MissingQry)
               else
                 (case read_ask (props ''ask'') of
                    Inl e \<Rightarrow> Some (Inl e)
                  | Inr a \<Rightarrow>
                      Some (Inr \<lparr>supportedProtocolVersions = supportedVersions,
                           nextNut = or_empty (props ''nut''),
                           tifValues = js_parseInt16 (or_empty (props ''tif'')),
                           nextRequestPathAndQuery = or_empty (props ''qry''),
                           successfulAuthenticationRedirectUrl = props ''url'',
                           secretIndex = props ''sin'',
                           serverUnlockKey = props ''suk'',
                           askMessage = ask_message a,
                           askButton1Label = ask_button1Label a,
                           askButton1Url = ask_button1Url a,
                           askButton2Label = ask_button2Label a,
                           askButton2Url = ask_button2Url a\<rparr>))))"

section \<open>The test site: identities, nuts and the storage tables\<close>

subsection \<open>Transaction information flags\<close>

type_synonym tif = "32 word"

definition CurrentIDMatch :: tif where "CurrentIDMatch = 0x01"
definition PreviousIDMatch :: tif where "PreviousIDMatch = 0x02"
definition IPAddressesMatch :: tif where "IPAddressesMatch = 0x04"
definition IDDisabled :: tif where "IDDisabled = 0x08"
definition FunctionNotSupported :: tif where "FunctionNotSupported = 0x10"
definition TransientError :: tif where "TransientError = 0x20"
definition CommandFailed :: tif where "CommandFailed = 0x40"
definition ClientFailure :: tif where "ClientFailure = 0x80"
definition BadIDAssociation :: tif where "BadIDAssociation = 0x100"

subsection \<open>Records\<close>

text \<open>
  Modelled from the spec: \<open>ClientRequestInfo\<close> is declared in the passport-sqrl module,
  which is not among the sources; its fields are the ones the handler reads and the
  data model lists.
\<close>

record ClientRequestInfo =
  sqrlCommand :: string
  primaryIdentityPublicKey :: string
  previousIdentityPublicKey :: "string option"
  serverUnlockPublicKey :: "string option"
  serverVerifyUnlockPublicKey :: "string option"
  useSqrlIdentityOnly :: bool
  hardLockSqrlUse :: bool
  clientProvidedSession :: bool
  returnSessionUnlockKey :: bool

text \<open>
  \<open>UserDBRecord\<close>, a user document. The array of previous keys can be missing on a
  document (the handler checks for that), and \<open>push\<close> is called with a value of type
  \<open>string | undefined\<close>, so its elements are \<open>string option\<close>. The database's
  implicit \<open>_id\<close> is the document's place in the table.
\<close>

record UserDBRecord =
  name :: "string option"
  sqrlPrimaryIdentityPublicKey :: string
  sqrlPreviousIdentityPublicKeys :: "string option list option"
  sqrlServerUnlockPublicKey :: "string option"
  sqrlServerVerifyUnlockPublicKey :: "string option"
  sqrlUseSqrlIdentityOnly :: bool
  sqrlHardLockSqrlUse :: bool

text \<open>
  \<open>NutDBRecord\<close> with the fields it inherits from \<open>NutInfo\<close> (\<open>nut\<close>,
  \<open>originalLoginNut\<close>). \<open>createdAt\<close> is a time stamp.
\<close>

record NutDBRecord =
  nut :: string
  originalLoginNut :: "string option"
  url :: "string option"
  createdAt :: nat
  loggedIn :: bool
  clientPrimaryIdentityPublicKey :: "string option"

text \<open>
  What the field \<open>user\<close> of an \<open>AuthCompletionInfo\<close> can hold in the handler: nothing,
  a user document, or the number that \<open>updateAsync\<close> resolves to (the handler declares
  \<open>updateAsync\<close> as returning \<open>Promise<number>\<close> and assigns its result to the field).
\<close>

datatype js_user = Undefined | UserDoc UserDBRecord | NumReplaced nat

record AuthCompletionInfo =
  user :: js_user
  tifValues :: tif
  sessionUnlockKey :: "string option"

text \<open>
  Modelled from the spec: the class \<open>AuthCompletionInfo\<close> is declared in the passport-sqrl
  module, which is not among the sources. A new object has no user and no flag set.
\<close>

definition new_AuthCompletionInfo :: AuthCompletionInfo where
  "new_AuthCompletionInfo = \<lparr>user = Undefined, tifValues = 0, sessionUnlockKey = None\<rparr>"

record UrlAndNut =
  urlString :: string
  nutString :: string

subsection \<open>The document tables\<close>

text \<open>
  Modelled from the spec: the tables are in-memory NeDB stores, a library that is not
  among the sources. A table is the list of its documents in the order the store
  visits them (the order of their \<open>_id\<close>, not of their insertion). \<open>findOne\<close> returns
  the first document that matches, \<open>insert\<close> adds a document (the model puts it last)
  and returns it, and \<open>update\<close> without options replaces the first document that
  matches, in its place, and returns the number of documents replaced.
\<close>

definition findOne :: "('a \<Rightarrow> bool) \<Rightarrow> 'a list \<Rightarrow> 'a option" where
  "findOne p table = find p table"

definition insert_doc :: "'a \<Rightarrow> 'a list \<Rightarrow> 'a \<times> 'a list" where
  "insert_doc doc table = (doc, table @ [doc])"

fun replace_first :: "('a \<Rightarrow> bool) \<Rightarrow> 'a \<Rightarrow> 'a list \<Rightarrow> 'a list" where
  "replace_first p doc [] = []"
| "replace_first p doc (x # xs) = (if p x then doc # xs else x # replace_first p doc xs)"

definition update_doc :: "('a \<Rightarrow> bool) \<Rightarrow> 'a \<Rightarrow> 'a list \<Rightarrow> nat \<times> 'a list" where
  "update_doc p doc table =
     ((if \<exists>x \<in> set table. p x then 1 else 0), replace_first p doc table)"

record SiteState =
  userTable :: "UserDBRecord list"
  nutTable :: "NutDBRecord list"

subsection \<open>\<open>TestSiteHandler\<close>\<close>

definition new_NutDBRecord :: "nat \<Rightarrow> string \<Rightarrow> string option \<Rightarrow> string option \<Rightarrow> NutDBRecord" where
  "new_NutDBRecord now n u orig =
     \<lparr>nut = n, originalLoginNut = orig, url = u, createdAt = now,
      loggedIn = False, clientPrimaryIdentityPublicKey = None\<rparr>"

definition nutIssuedToClientAsync ::
  "nat \<Rightarrow> SiteState \<Rightarrow> UrlAndNut \<Rightarrow> string option \<Rightarrow> SiteState" where
  "nutIssuedToClientAsync now st urlAndNut orig =
     st\<lparr>nutTable :=
       snd (insert_doc (new_NutDBRecord now (nutString urlAndNut) (Some (urlString urlAndNut)) orig)
              (nutTable st))\<rparr>"

definition getNutRecordAsync :: "NutDBRecord list \<Rightarrow> string \<Rightarrow> NutDBRecord option" where
  "getNutRecordAsync nuts n = findOne (\<lambda>r. nut r = n) nuts"

definition findUser :: "UserDBRecord list \<Rightarrow> string \<Rightarrow> UserDBRecord option" where
  "findUser users k = findOne (\<lambda>d. sqrlPrimaryIdentityPublicKey d = k) users"

definition keyMatches :: "ClientRequestInfo \<Rightarrow> string list" where
  "keyMatches req =
     [primaryIdentityPublicKey req] @
     (case previousIdentityPublicKey req of
        None \<Rightarrow> []
      | Some p \<Rightarrow> if p \<noteq> [] then [p] else [])"

definition findUserByEitherKey :: "UserDBRecord list \<Rightarrow> ClientRequestInfo \<Rightarrow> AuthCompletionInfo" where
  "findUserByEitherKey users req =
     (let result = new_AuthCompletionInfo in
      case findOne (\<lambda>d. sqrlPrimaryIdentityPublicKey d \<in> set (keyMatches req)) users of
        None \<Rightarrow> result
      | Some doc \<Rightarrow>
          (let result = result\<lparr>user := UserDoc doc\<rparr> in
           if sqrlPrimaryIdentityPublicKey doc = primaryIdentityPublicKey req
           then result\<lparr>tifValues := tifValues result OR CurrentIDMatch\<rparr>
           else result\<lparr>tifValues := tifValues result OR PreviousIDMatch\<rparr>))"

definition newFromClientRequestInfo :: "ClientRequestInfo \<Rightarrow> UserDBRecord" where
  "newFromClientRequestInfo req =
     (let result =
        \<lparr>name = None,
         sqrlPrimaryIdentityPublicKey = primaryIdentityPublicKey req,
         sqrlPreviousIdentityPublicKeys = Some [],
         sqrlServerUnlockPublicKey = serverUnlockPublicKey req,
         sqrlServerVerifyUnlockPublicKey = serverVerifyUnlockPublicKey req,
         sqrlUseSqrlIdentityOnly = useSqrlIdentityOnly req,
         sqrlHardLockSqrlUse = hardLockSqrlUse req\<rparr>
      in if truthy (previousIdentityPublicKey req)
         then result\<lparr>sqrlPreviousIdentityPublicKeys := Some [previousIdentityPublicKey req]\<rparr>
         else result)"

text \<open>
  Reading \<open>sqrlPrimaryIdentityPublicKey\<close> off the \<open>user\<close> field: a document gives its key,
  a number has no such property and gives \<open>undefined\<close>, and reading a property of
  \<open>undefined\<close> raises a \<open>TypeError\<close>.
\<close>

definition user_primary_key :: "js_user \<Rightarrow> error + string option" where
  "user_primary_key u =
     (case u of
        Undefined \<Rightarrow> Inl TypeError
      | UserDoc d \<Rightarrow> Inr (Some (sqrlPrimaryIdentityPublicKey d))
      | NumReplaced n \<Rightarrow> Inr None)"

text \<open>
  The first part of \<open>ident\<close>: find the user, then rotate the key of a user found by the
  previous key, or create the user when none was found (the lookup leaves a document or
  nothing in \<open>authInfo.user\<close>). It returns \<open>authInfo\<close> and the user table. The result
  of \<open>updateAsync\<close> is assigned to \<open>authInfo.user\<close>, as in the source.
\<close>

definition ident_user ::
  "UserDBRecord list \<Rightarrow> ClientRequestInfo \<Rightarrow> AuthCompletionInfo \<times> UserDBRecord list" where
  "ident_user users req =
     (let authInfo = findUserByEitherKey users req in
      case user authInfo of
        UserDoc u \<Rightarrow>
          if tifValues authInfo AND PreviousIDMatch \<noteq> 0 then
            (let ks = (case sqrlPreviousIdentityPublicKeys u of None \<Rightarrow> [] | Some ks \<Rightarrow> ks);
                 u' = u\<lparr>sqrlPreviousIdentityPublicKeys :=
                          Some (ks @ [previousIdentityPublicKey req]),
                        sqrlPrimaryIdentityPublicKey := primaryIdentityPublicKey req\<rparr>;
                 (n, users') =
                   update_doc
                     (\<lambda>d. Some (sqrlPrimaryIdentityPublicKey d) = previousIdentityPublicKey req)
                     u' users
             in (authInfo\<lparr>user := NumReplaced n\<rparr>, users'))
          else (authInfo, users)
      | _ \<Rightarrow>
          (let newRecord = newFromClientRequestInfo req;
               (result, users') = insert_doc newRecord users
           in (authInfo\<lparr>user := UserDoc result, tifValues := 0\<rparr>, users')))"

text \<open>
  The nut record that \<open>ident\<close> updates: the record passed in, or, when that one carries
  an \<open>originalLoginNut\<close>, the record stored under that nut (if there still is one).
\<close>

definition original_nut_record :: "NutDBRecord list \<Rightarrow> NutDBRecord \<Rightarrow> NutDBRecord option" where
  "original_nut_record nuts nutInfo =
     (case originalLoginNut nutInfo of
        None \<Rightarrow> Some nutInfo
      | Some orig \<Rightarrow> if orig \<noteq> [] then getNutRecordAsync nuts orig else Some nutInfo)"

text \<open>
  The second part of \<open>ident\<close>: mark that nut record as logged in, with the primary key
  read off \<open>authInfo.user\<close>, and write it back under its nut. Nothing is read or
  written when there is no record.
\<close>

definition ident_nut :: "NutDBRecord list \<Rightarrow> NutDBRecord \<Rightarrow> js_user \<Rightarrow> error + NutDBRecord list" where
  "ident_nut nuts nutInfo usr =
     (case original_nut_record nuts nutInfo of
        None \<Rightarrow> Inr nuts
      | Some r \<Rightarrow>
          (case user_primary_key usr of
             Inl e \<Rightarrow> Inl e
           | Inr k \<Rightarrow>
               (let r' = r\<lparr>loggedIn := True, clientPrimaryIdentityPublicKey := k\<rparr>
                in Inr (snd (update_doc (\<lambda>x. nut x = nut r') r' nuts)))))"

definition ident ::
  "SiteState \<Rightarrow> ClientRequestInfo \<Rightarrow> NutDBRecord \<Rightarrow> error + (AuthCompletionInfo \<times> SiteState)" where
  "ident st req nutInfo =
     (let (authInfo, users') = ident_user (userTable st) req
      in case ident_nut (nutTable st) nutInfo (user authInfo) of
           Inl e \<Rightarrow> Inl e
         | Inr nuts' \<Rightarrow> Inr (authInfo, st\<lparr>userTable := users', nutTable := nuts'\<rparr>))"

definition query :: "SiteState \<Rightarrow> ClientRequestInfo \<Rightarrow> AuthCompletionInfo" where
  "query st req =
     (let authInfo = findUserByEitherKey (userTable st) req in
      case user authInfo of
        UserDoc u \<Rightarrow>
          if returnSessionUnlockKey req
          then authInfo\<lparr>sessionUnlockKey := sqrlServerUnlockPublicKey u\<rparr>
          else authInfo
      | _ \<Rightarrow> authInfo)"

subsection \<open>The route that polls a nut\<close>

datatype http_response =
    Status404
  | Status500 string
  | Status400 string
  | SendNutPollResult bool "string option"

definition loginSuccessRedirect :: string where
  "loginSuccessRedirect = ''/''"

text \<open>
  The handler of \<open>/pollNut/:nut\<close>. \<open>findErr\<close> is the error the user lookup reports to
  its callback, if any, and \<open>login\<close> is the framework's \<open>req.login\<close>, which reports an
  error or none; both belong to libraries outside the sources.
\<close>

definition pollNut ::
  "(UserDBRecord option \<Rightarrow> string option) \<Rightarrow> string option \<Rightarrow> SiteState \<Rightarrow> string option
     \<Rightarrow> http_response" where
  "pollNut login findErr st nutParam =
     (case nutParam of
        None \<Rightarrow> Status404
      | Some n \<Rightarrow>
          if n = [] then Status404
          else
            (case getNutRecordAsync (nutTable st) n of
               None \<Rightarrow> Status404
             | Some nutRecord \<Rightarrow>
                 if \<not> loggedIn nutRecord \<or> \<not> truthy (clientPrimaryIdentityPublicKey nutRecord)
                 then SendNutPollResult False None
                 else
                   (case clientPrimaryIdentityPublicKey nutRecord of
                      None \<Rightarrow> SendNutPollResult False None
                    | Some k \<Rightarrow>
                        (let userDBRecord = findUser (userTable st) k in
                         case findErr of
                           Some err \<Rightarrow> Status500 err
                         | None \<Rightarrow>
                             (case login userDBRecord of
                                Some loginErr \<Rightarrow> Status400 loginErr
                              | None \<Rightarrow>
                                  SendNutPollResult (loggedIn nutRecord)
                                    (Some loginSuccessRedirect))))))"

section \<open>The URL generator as the specification words it\<close>

text \<open>
  The scheme is \<open>sqrl\<close> when secure and \<open>qrl\<close> otherwise. An absent path is the
  empty string, a non-empty path without a leading slash gets one, and a trailing
  question mark is stripped. A positive domain extension is clamped to the length of
  that path and written as \<open>&x=n\<close> when the path is not empty. A non-empty friendly name
  is written as \<open>&sfn=\<close> and its base64url text. The query starts with \<open>?nut=\<close> and
  the nut.
\<close>

definition spec_scheme :: "bool \<Rightarrow> string" where
  "spec_scheme secure = (if secure then ''sqrl'' else ''qrl'')"

fun prefix_slash :: "string \<Rightarrow> string" where
  "prefix_slash [] = []"
| "prefix_slash (c # cs) = (if c = CHR ''/'' then c # cs else CHR ''/'' # c # cs)"

definition strip_question :: "string \<Rightarrow> string" where
  "strip_question s = (if s \<noteq> [] \<and> last s = CHR ''?'' then butlast s else s)"

definition spec_path :: "string option \<Rightarrow> string" where
  "spec_path p = strip_question (prefix_slash (case p of None \<Rightarrow> [] | Some s \<Rightarrow> s))"

definition spec_x :: "string \<Rightarrow> int option \<Rightarrow> string" where
  "spec_x p ext =
     (case ext of
        None \<Rightarrow> []
      | Some n \<Rightarrow> if 0 < n \<and> p \<noteq> [] then ''&x='' @ show_int (min n (int (length p))) else [])"

definition spec_sfn :: "string option \<Rightarrow> string" where
  "spec_sfn friendly =
     (case friendly of
        None \<Rightarrow> []
      | Some n \<Rightarrow> if n \<noteq> [] then ''&sfn='' @ base64url_encode n else [])"

definition spec_generate ::
  "bool \<Rightarrow> string \<Rightarrow> string \<Rightarrow> string option \<Rightarrow> int option \<Rightarrow> string option \<Rightarrow> string" where
  "spec_generate secure domain n p ext friendly =
     spec_scheme secure @ ''://'' @ domain @ spec_path p @ ''?nut='' @ n
       @ spec_x (spec_path p) ext @ spec_sfn friendly"

section \<open>Well-formed inputs of the URL generator\<close>

text \<open>
  A domain is a non-empty text of lower-case letters, digits, dots and dashes, of at
  most 255 characters and with labels of at most 63 characters (longer host names are
  cut by the runtime's parser); a nut is a text of the base64url alphabet; a path, when
  given, is a text of those characters and of \<open>/ . ~ ? = & %\<close>.
\<close>

definition is_host_char :: "char \<Rightarrow> bool" where
  "is_host_char c = (is_lower c \<or> is_digit c \<or> c \<in> set ''.-'')"

definition wf_domain :: "string \<Rightarrow> bool" where
  "wf_domain d =
     (d \<noteq> [] \<and> list_all is_host_char d \<and> length d \<le> 255
      \<and> list_all (\<lambda>l. length l \<le> 63) (split_on CHR ''.'' d))"

definition is_nut_char :: "char \<Rightarrow> bool" where
  "is_nut_char c = (is_lower c \<or> is_upper c \<or> is_digit c \<or> c \<in> set ''-_'')"

definition wf_nut :: "string \<Rightarrow> bool" where
  "wf_nut n = list_all is_nut_char n"

definition is_path_char :: "char \<Rightarrow> bool" where
  "is_path_char c = (is_nut_char c \<or> c \<in> set ''/.~?=&%'')"

definition wf_path :: "string option \<Rightarrow> bool" where
  "wf_path p = (case p of None \<Rightarrow> True | Some s \<Rightarrow> list_all is_path_char s)"

text \<open>
  The text of a URL with the given scheme, optional user information, host, optional
  port, and rest (path and query), and the conditions under which it is another
  spelling of a generated URL: a scheme and a host that may use capitals, user
  information without \<open>/\<close>, \<open>?\<close> and \<open>#\<close>, and a port of digits.
\<close>

definition url_of_parts :: "string \<Rightarrow> string option \<Rightarrow> string \<Rightarrow> string option \<Rightarrow> string \<Rightarrow> string" where
  "url_of_parts scheme userinfo host prt rest =
     scheme @ ''://''
       @ (case userinfo of None \<Rightarrow> [] | Some u \<Rightarrow> u @ ''@'')
       @ host
       @ (case prt of None \<Rightarrow> [] | Some p \<Rightarrow> '':'' @ p)
       @ rest"

text \<open>The authority part of that text.\<close>

definition authority_of :: "string option \<Rightarrow> string \<Rightarrow> string option \<Rightarrow> string" where
  "authority_of userinfo host prt =
     (case userinfo of None \<Rightarrow> [] | Some u \<Rightarrow> u @ ''@'') @ host
       @ (case prt of None \<Rightarrow> [] | Some p \<Rightarrow> '':'' @ p)"

definition is_hostname_char :: "char \<Rightarrow> bool" where
  "is_hostname_char c = (is_lower c \<or> is_upper c \<or> is_digit c \<or> c \<in> set ''.-'')"

definition wf_spelling :: "string \<Rightarrow> string option \<Rightarrow> string \<Rightarrow> string option \<Rightarrow> bool" where
  "wf_spelling scheme userinfo host prt =
     (scheme \<noteq> [] \<and> list_all is_scheme_char scheme
      \<and> (case userinfo of None \<Rightarrow> True | Some u \<Rightarrow> list_all (\<lambda>c. c \<notin> set ''/?#'') u)
      \<and> list_all is_hostname_char host
      \<and> (case prt of None \<Rightarrow> True | Some p \<Rightarrow> list_all is_digit p))"

section \<open>Example values\<close>

text \<open>A user document with a given primary key, a request and a nut record.\<close>

definition example_user :: "string \<Rightarrow> UserDBRecord" where
  "example_user k =
     \<lparr>name = None, sqrlPrimaryIdentityPublicKey = k, sqrlPreviousIdentityPublicKeys = Some [],
      sqrlServerUnlockPublicKey = None, sqrlServerVerifyUnlockPublicKey = None,
      sqrlUseSqrlIdentityOnly = False, sqrlHardLockSqrlUse = False\<rparr>"

definition example_request :: "string \<Rightarrow> string option \<Rightarrow> ClientRequestInfo" where
  "example_request k p =
     \<lparr>sqrlCommand = ''ident'', primaryIdentityPublicKey = k, previousIdentityPublicKey = p,
      serverUnlockPublicKey = None, serverVerifyUnlockPublicKey = None,
      useSqrlIdentityOnly = False, hardLockSqrlUse = False,
      clientProvidedSession = False, returnSessionUnlockKey = False\<rparr>"

definition example_nut :: "string \<Rightarrow> string option \<Rightarrow> NutDBRecord" where
  "example_nut n orig = new_NutDBRecord 0 n None orig"


section \<open>Properties of the test site\<close>

subsection \<open>Tables\<close>

lemma update_doc_snd: "snd (update_doc p doc table) = replace_first p doc table"
  by (simp add: update_doc_def)

lemma replace_first_others:
  "p doc \<Longrightarrow> filter (\<lambda>x. \<not> p x) (replace_first p doc xs) = filter (\<lambda>x. \<not> p x) xs"
  by (induction xs) auto

lemma replace_first_length: "length (replace_first p doc xs) = length xs"
  by (induction xs) auto

lemma replace_first_find:
  "p doc \<Longrightarrow> find p xs = Some x \<Longrightarrow> find p (replace_first p doc xs) = Some doc"
  by (induction xs) (auto split: if_splits)

lemma replace_first_none: "find p xs = None \<Longrightarrow> replace_first p doc xs = xs"
  by (induction xs) (auto split: if_splits)

lemma replace_first_split:
  "\<forall>x \<in> set xs. \<not> p x \<Longrightarrow> p u \<Longrightarrow> replace_first p doc (xs @ u # ys) = xs @ doc # ys"
  by (induction xs) auto

subsection \<open>Looking a user up by either key\<close>

lemmas tif_defs = CurrentIDMatch_def PreviousIDMatch_def

lemma findUserByEitherKey_eq:
  "findUserByEitherKey users req =
     (case find (\<lambda>d. sqrlPrimaryIdentityPublicKey d \<in> set (keyMatches req)) users of
        None \<Rightarrow> new_AuthCompletionInfo
      | Some d \<Rightarrow>
          \<lparr>user = UserDoc d,
           tifValues = (if sqrlPrimaryIdentityPublicKey d = primaryIdentityPublicKey req
                        then CurrentIDMatch else PreviousIDMatch),
           sessionUnlockKey = None\<rparr>)"
  by (simp add: findUserByEitherKey_def findOne_def new_AuthCompletionInfo_def Let_def
      split: option.splits)

lemma find_SomeD:
  "find P xs = Some x \<Longrightarrow> P x \<and> x \<in> set xs"
  by (induction xs) (auto split: if_splits)

lemma keyMatches_set:
  "k \<in> set (keyMatches req) \<longleftrightarrow>
     k = primaryIdentityPublicKey req \<or> (previousIdentityPublicKey req = Some k \<and> k \<noteq> [])"
  by (auto simp: keyMatches_def split: option.splits)

lemma found_doc:
  assumes "find (\<lambda>d. sqrlPrimaryIdentityPublicKey d \<in> set (keyMatches req)) users = Some d"
  shows "d \<in> set users"
    and "sqrlPrimaryIdentityPublicKey d = primaryIdentityPublicKey req
         \<or> (previousIdentityPublicKey req = Some (sqrlPrimaryIdentityPublicKey d)
            \<and> sqrlPrimaryIdentityPublicKey d \<noteq> [])"
proof -
  from find_SomeD [OF assms]
  have "sqrlPrimaryIdentityPublicKey d \<in> set (keyMatches req)" and d: "d \<in> set users"
    by simp_all
  then show "sqrlPrimaryIdentityPublicKey d = primaryIdentityPublicKey req
         \<or> (previousIdentityPublicKey req = Some (sqrlPrimaryIdentityPublicKey d)
            \<and> sqrlPrimaryIdentityPublicKey d \<noteq> [])"
    by (simp add: keyMatches_set)
  show "d \<in> set users" by (rule d)
qed

lemma no_doc_found:
  assumes "find (\<lambda>d. sqrlPrimaryIdentityPublicKey d \<in> set (keyMatches req)) users = None"
    and "d \<in> set users"
  shows "sqrlPrimaryIdentityPublicKey d \<noteq> primaryIdentityPublicKey req"
    and "previousIdentityPublicKey req = Some (sqrlPrimaryIdentityPublicKey d)
         \<Longrightarrow> sqrlPrimaryIdentityPublicKey d = []"
proof -
  from assms have "sqrlPrimaryIdentityPublicKey d \<notin> set (keyMatches req)"
    by (simp add: find_None_iff)
  then show "sqrlPrimaryIdentityPublicKey d \<noteq> primaryIdentityPublicKey req"
    and "previousIdentityPublicKey req = Some (sqrlPrimaryIdentityPublicKey d)
         \<Longrightarrow> sqrlPrimaryIdentityPublicKey d = []"
    by (simp_all add: keyMatches_set)
qed


text \<open>
  C2, as amended. The lookup returns the first stored document whose primary key is the
  request's current key or its (non-empty) previous key. When the document returned
  has the current key as its primary key, exactly \<open>CurrentIDMatch\<close> is set; when it has
  another primary key, that key is the request's previous key and exactly
  \<open>PreviousIDMatch\<close> is set; when no document is returned, no bit is set. In terms of
  the table: a document with the current key and none with the previous key gives
  \<open>CurrentIDMatch\<close>, none with the current key and one with the previous key gives
  \<open>PreviousIDMatch\<close>, and none with either key gives 0. The two bits are never set
  together.
\<close>

theorem findUserByEitherKey_match_bits:
  fixes users :: "UserDBRecord list" and req :: ClientRequestInfo
  shows
  "(\<forall>d. findOne (\<lambda>d. sqrlPrimaryIdentityPublicKey d \<in> set (keyMatches req)) users = Some d
        \<and> sqrlPrimaryIdentityPublicKey d = primaryIdentityPublicKey req
      \<longrightarrow> AuthCompletionInfo.tifValues (findUserByEitherKey users req) = CurrentIDMatch)
   \<and> (\<forall>d. findOne (\<lambda>d. sqrlPrimaryIdentityPublicKey d \<in> set (keyMatches req)) users = Some d
        \<and> sqrlPrimaryIdentityPublicKey d \<noteq> primaryIdentityPublicKey req
      \<longrightarrow> AuthCompletionInfo.tifValues (findUserByEitherKey users req) = PreviousIDMatch
          \<and> previousIdentityPublicKey req = Some (sqrlPrimaryIdentityPublicKey d))
   \<and> (findOne (\<lambda>d. sqrlPrimaryIdentityPublicKey d \<in> set (keyMatches req)) users = None
      \<longrightarrow> AuthCompletionInfo.tifValues (findUserByEitherKey users req) = 0)
   \<and> ((\<exists>d \<in> set users. sqrlPrimaryIdentityPublicKey d = primaryIdentityPublicKey req)
        \<and> (\<forall>d \<in> set users. Some (sqrlPrimaryIdentityPublicKey d) \<noteq> previousIdentityPublicKey req)
      \<longrightarrow> AuthCompletionInfo.tifValues (findUserByEitherKey users req) = CurrentIDMatch)
   \<and> ((\<forall>d \<in> set users. sqrlPrimaryIdentityPublicKey d \<noteq> primaryIdentityPublicKey req)
        \<and> (\<exists>d \<in> set users. Some (sqrlPrimaryIdentityPublicKey d) = previousIdentityPublicKey req)
        \<and> truthy (previousIdentityPublicKey req)
      \<longrightarrow> AuthCompletionInfo.tifValues (findUserByEitherKey users req) = PreviousIDMatch)
   \<and> ((\<forall>d \<in> set users. sqrlPrimaryIdentityPublicKey d \<noteq> primaryIdentityPublicKey req
           \<and> Some (sqrlPrimaryIdentityPublicKey d) \<noteq> previousIdentityPublicKey req)
      \<longrightarrow> AuthCompletionInfo.tifValues (findUserByEitherKey users req) = 0)
   \<and> AuthCompletionInfo.tifValues (findUserByEitherKey users req)
        \<in> {0, CurrentIDMatch, PreviousIDMatch}
   \<and> AuthCompletionInfo.tifValues (findUserByEitherKey users req) AND (CurrentIDMatch OR PreviousIDMatch)
        \<noteq> CurrentIDMatch OR PreviousIDMatch"
proof -
  let ?found = "find (\<lambda>d. sqrlPrimaryIdentityPublicKey d \<in> set (keyMatches req)) users"
  let ?tif = "AuthCompletionInfo.tifValues (findUserByEitherKey users req)"
  have tif: "?tif = (case ?found of None \<Rightarrow> 0
                     | Some d \<Rightarrow> if sqrlPrimaryIdentityPublicKey d = primaryIdentityPublicKey req
                                then CurrentIDMatch else PreviousIDMatch)"
    by (simp add: findUserByEitherKey_eq new_AuthCompletionInfo_def split: option.splits)
  have c1: "?found = Some d \<and> sqrlPrimaryIdentityPublicKey d = primaryIdentityPublicKey req
              \<longrightarrow> ?tif = CurrentIDMatch" for d
    by (simp add: tif)
  have c2: "?found = Some d \<and> sqrlPrimaryIdentityPublicKey d \<noteq> primaryIdentityPublicKey req
              \<longrightarrow> ?tif = PreviousIDMatch
                  \<and> previousIdentityPublicKey req = Some (sqrlPrimaryIdentityPublicKey d)" for d
    using found_doc(2) [of req users d] by (auto simp: tif)
  have c3: "?found = None \<longrightarrow> ?tif = 0"
    by (simp add: tif)
  have c4: "(\<exists>d \<in> set users. sqrlPrimaryIdentityPublicKey d = primaryIdentityPublicKey req)
        \<and> (\<forall>d \<in> set users. Some (sqrlPrimaryIdentityPublicKey d) \<noteq> previousIdentityPublicKey req)
      \<longrightarrow> ?tif = CurrentIDMatch"
  proof (cases ?found)
    case None
    then show ?thesis using no_doc_found(1) [of req users] by blast
  next
    case (Some d)
    from found_doc [OF Some] Some show ?thesis by (auto simp: tif)
  qed
  have c5: "(\<forall>d \<in> set users. sqrlPrimaryIdentityPublicKey d \<noteq> primaryIdentityPublicKey req)
        \<and> (\<exists>d \<in> set users. Some (sqrlPrimaryIdentityPublicKey d) = previousIdentityPublicKey req)
        \<and> truthy (previousIdentityPublicKey req)
      \<longrightarrow> ?tif = PreviousIDMatch"
  proof (cases ?found)
    case None
    show ?thesis
    proof (intro impI, elim conjE bexE)
      fix d
      assume d: "d \<in> set users"
        and p: "Some (sqrlPrimaryIdentityPublicKey d) = previousIdentityPublicKey req"
        and t: "truthy (previousIdentityPublicKey req)"
      from p have p': "previousIdentityPublicKey req = Some (sqrlPrimaryIdentityPublicKey d)"
        by simp
      from no_doc_found(2) [OF None d p'] t p' show "?tif = PreviousIDMatch"
        by (simp add: truthy_def)
    qed
  next
    case (Some d)
    from found_doc [OF Some] Some show ?thesis by (auto simp: tif)
  qed
  have c6: "(\<forall>d \<in> set users. sqrlPrimaryIdentityPublicKey d \<noteq> primaryIdentityPublicKey req
           \<and> Some (sqrlPrimaryIdentityPublicKey d) \<noteq> previousIdentityPublicKey req)
      \<longrightarrow> ?tif = 0"
  proof (cases ?found)
    case None
    then show ?thesis by (simp add: tif)
  next
    case (Some d)
    from found_doc [OF Some] show ?thesis by auto
  qed
  have c7: "?tif \<in> {0, CurrentIDMatch, PreviousIDMatch}"
    by (simp add: tif split: option.splits)
  have c8: "?tif AND (CurrentIDMatch OR PreviousIDMatch) \<noteq> CurrentIDMatch OR PreviousIDMatch"
    by (simp add: tif tif_defs split: option.splits)
  show ?thesis
    unfolding findOne_def using c1 c2 c3 c4 c5 c6 c7 c8 by blast
qed

text \<open>
  C2, an instance: the only stored document has the key that the request presents as
  its previous key.
\<close>

theorem findUserByEitherKey_match_bits_witness:
  "AuthCompletionInfo.tifValues
     (findUserByEitherKey [example_user ''A''] (example_request ''B'' (Some ''A''))) = PreviousIDMatch
   \<and> previousIdentityPublicKey (example_request ''B'' (Some ''A''))
       = Some (sqrlPrimaryIdentityPublicKey (example_user ''A''))"
proof -
  have h: "findOne (\<lambda>d. sqrlPrimaryIdentityPublicKey d
                      \<in> set (keyMatches (example_request ''B'' (Some ''A''))))
             [example_user ''A''] = Some (example_user ''A'')
           \<and> sqrlPrimaryIdentityPublicKey (example_user ''A'')
               \<noteq> primaryIdentityPublicKey (example_request ''B'' (Some ''A''))"
    by (simp add: findOne_def keyMatches_def example_user_def example_request_def)
  from findUserByEitherKey_match_bits
         [of "example_request ''B'' (Some ''A'')" "[example_user ''A'']",
          THEN conjunct2, THEN conjunct1, rule_format, OF h]
  show ?thesis .
qed

text \<open>
  C2 as stated fails when the table holds a document for each of the two keys and the
  one for the previous key comes first: a stored document has the request's current
  key, and the lookup sets \<open>PreviousIDMatch\<close>, not \<open>CurrentIDMatch\<close>.
\<close>

theorem findUserByEitherKey_current_counterexample:
  "example_user ''B'' \<in> set [example_user ''A'', example_user ''B'']
   \<and> sqrlPrimaryIdentityPublicKey (example_user ''B'')
       = primaryIdentityPublicKey (example_request ''B'' (Some ''A''))
   \<and> AuthCompletionInfo.tifValues
       (findUserByEitherKey [example_user ''A'', example_user ''B'']
          (example_request ''B'' (Some ''A''))) = PreviousIDMatch
   \<and> PreviousIDMatch \<noteq> CurrentIDMatch"
  by (simp add: findUserByEitherKey_eq keyMatches_def example_user_def example_request_def tif_defs)

subsection \<open>Completing the login on the nut record\<close>

lemma getNutRecordAsync_nut:
  "getNutRecordAsync nuts n = Some r \<Longrightarrow> nut r = n"
  using find_SomeD [of "\<lambda>r. nut r = n" nuts r] by (simp add: getNutRecordAsync_def findOne_def)

lemma original_nut_record_link:
  "originalLoginNut nutInfo = Some orig \<Longrightarrow> orig \<noteq> [] \<Longrightarrow>
     original_nut_record nuts nutInfo = getNutRecordAsync nuts orig"
  by (simp add: original_nut_record_def)

lemma ident_nut_found:
  assumes "originalLoginNut nutInfo = Some orig" and "orig \<noteq> []"
    and "getNutRecordAsync nuts orig = Some r"
  shows "ident_nut nuts nutInfo (UserDoc u) =
           Inr (replace_first (\<lambda>x. nut x = orig)
                  (r\<lparr>loggedIn := True,
                     clientPrimaryIdentityPublicKey := Some (sqrlPrimaryIdentityPublicKey u)\<rparr>) nuts)"
  using assms getNutRecordAsync_nut [OF assms(3)]
  by (simp add: ident_nut_def original_nut_record_link user_primary_key_def update_doc_snd)

lemma ident_nut_missing:
  assumes "originalLoginNut nutInfo = Some orig" and "orig \<noteq> []"
    and "getNutRecordAsync nuts orig = None"
  shows "ident_nut nuts nutInfo usr = Inr nuts"
  using assms by (simp add: ident_nut_def original_nut_record_link)

lemma ident_missing:
  assumes "originalLoginNut nutInfo = Some orig" and "orig \<noteq> []"
    and "getNutRecordAsync (nutTable st) orig = None"
  shows "ident st req nutInfo =
           Inr (fst (ident_user (userTable st) req),
                st\<lparr>userTable := snd (ident_user (userTable st) req)\<rparr>)"
  using ident_nut_missing [OF assms]
  by (simp add: ident_def split: prod.splits)

lemma ident_found_doc:
  assumes "originalLoginNut nutInfo = Some orig" and "orig \<noteq> []"
    and "getNutRecordAsync (nutTable st) orig = Some r"
    and "ident_user (userTable st) req = (authInfo, users')"
    and "user authInfo = UserDoc u"
  shows "ident st req nutInfo =
           Inr (authInfo,
                st\<lparr>userTable := users',
                   nutTable := replace_first (\<lambda>x. nut x = orig)
                     (r\<lparr>loggedIn := True,
                        clientPrimaryIdentityPublicKey := Some (sqrlPrimaryIdentityPublicKey u)\<rparr>)
                     (nutTable st)\<rparr>)"
  using ident_nut_found [OF assms(1,2,3), of u] assms(4,5)
  by (simp add: ident_def)

text \<open>
  The part of the login completion that holds whenever \<open>authInfo.user\<close> is a user
  document (a user found by the current key, or a new user). When the nut record passed
  to \<open>ident\<close> carries an \<open>originalLoginNut\<close>, the record that is updated is the one
  stored under that original nut: it gets \<open>loggedIn = true\<close> and the primary key of the
  user document, it is what a later lookup of the original nut returns, and the records
  stored under other nuts (the later nut among them) stay as they are. When no record is
  stored under the original nut, the nut table is not changed and \<open>ident\<close> returns its
  result without an error, whatever \<open>authInfo.user\<close> holds.
\<close>

lemma ident_updates_original_nut:
  assumes link: "originalLoginNut nutInfo = Some orig" and ne: "orig \<noteq> []"
  shows
    "(\<forall>r. getNutRecordAsync nuts orig = Some r \<longrightarrow>
        (\<exists>nuts'. ident_nut nuts nutInfo (UserDoc u) = Inr nuts'
           \<and> nuts' = replace_first (\<lambda>x. nut x = orig)
                  (r\<lparr>loggedIn := True,
                     clientPrimaryIdentityPublicKey := Some (sqrlPrimaryIdentityPublicKey u)\<rparr>) nuts
           \<and> getNutRecordAsync nuts' orig =
                Some (r\<lparr>loggedIn := True,
                     clientPrimaryIdentityPublicKey := Some (sqrlPrimaryIdentityPublicKey u)\<rparr>)
           \<and> filter (\<lambda>x. nut x \<noteq> orig) nuts' = filter (\<lambda>x. nut x \<noteq> orig) nuts))
     \<and> (\<forall>r authInfo users'.
          getNutRecordAsync (nutTable st) orig = Some r
          \<and> ident_user (userTable st) req = (authInfo, users') \<and> user authInfo = UserDoc u \<longrightarrow>
          ident st req nutInfo =
            Inr (authInfo,
                 st\<lparr>userTable := users',
                    nutTable := replace_first (\<lambda>x. nut x = orig)
                      (r\<lparr>loggedIn := True,
                         clientPrimaryIdentityPublicKey := Some (sqrlPrimaryIdentityPublicKey u)\<rparr>)
                      (nutTable st)\<rparr>))
     \<and> (getNutRecordAsync nuts orig = None \<longrightarrow> ident_nut nuts nutInfo usr = Inr nuts)
     \<and> (getNutRecordAsync (nutTable st) orig = None \<longrightarrow>
          (\<exists>authInfo users'. ident st req nutInfo = Inr (authInfo, st\<lparr>userTable := users'\<rparr>)))"
proof (intro conjI allI impI)
  fix r
  assume r: "getNutRecordAsync nuts orig = Some r"
  let ?r' = "r\<lparr>loggedIn := True,
                clientPrimaryIdentityPublicKey := Some (sqrlPrimaryIdentityPublicKey u)\<rparr>"
  let ?nuts' = "replace_first (\<lambda>x. nut x = orig) ?r' nuts"
  have n: "nut ?r' = orig" using getNutRecordAsync_nut [OF r] by simp
  have a: "ident_nut nuts nutInfo (UserDoc u) = Inr ?nuts'"
    by (rule ident_nut_found [OF link ne r])
  have b: "getNutRecordAsync ?nuts' orig = Some ?r'"
    using replace_first_find [of "\<lambda>x. nut x = orig" ?r' nuts r] n r
    by (simp add: getNutRecordAsync_def findOne_def)
  have c: "filter (\<lambda>x. nut x \<noteq> orig) ?nuts' = filter (\<lambda>x. nut x \<noteq> orig) nuts"
    using replace_first_others [of "\<lambda>x. nut x = orig" ?r' nuts] n by simp
  from a b c
  show "\<exists>nuts'. ident_nut nuts nutInfo (UserDoc u) = Inr nuts' \<and> nuts' = ?nuts'
           \<and> getNutRecordAsync nuts' orig = Some ?r'
           \<and> filter (\<lambda>x. nut x \<noteq> orig) nuts' = filter (\<lambda>x. nut x \<noteq> orig) nuts"
    by blast
next
  fix r authInfo users'
  assume "getNutRecordAsync (nutTable st) orig = Some r
          \<and> ident_user (userTable st) req = (authInfo, users') \<and> user authInfo = UserDoc u"
  then show "ident st req nutInfo =
            Inr (authInfo,
                 st\<lparr>userTable := users',
                    nutTable := replace_first (\<lambda>x. nut x = orig)
                      (r\<lparr>loggedIn := True,
                         clientPrimaryIdentityPublicKey := Some (sqrlPrimaryIdentityPublicKey u)\<rparr>)
                      (nutTable st)\<rparr>)"
    using ident_found_doc [OF link ne] by blast
next
  assume "getNutRecordAsync nuts orig = None"
  then show "ident_nut nuts nutInfo usr = Inr nuts"
    by (rule ident_nut_missing [OF link ne])
next
  assume "getNutRecordAsync (nutTable st) orig = None"
  from ident_missing [OF link ne this]
  show "\<exists>authInfo users'. ident st req nutInfo = Inr (authInfo, st\<lparr>userTable := users'\<rparr>)"
    by blast
qed


text \<open>
  An instance: the table holds the original nut \<open>orig\<close> and a later nut that links to
  it; the login is completed with the later record, and the record of \<open>orig\<close> is the
  one that changes. With the original record gone, the table stays as it is.
\<close>

lemma ident_updates_original_nut_instance:
  "ident_nut [example_nut ''orig'' None, example_nut ''later'' (Some ''orig'')]
     (example_nut ''later'' (Some ''orig'')) (UserDoc (example_user ''K''))
   = Inr [(example_nut ''orig'' None)\<lparr>loggedIn := True,
            clientPrimaryIdentityPublicKey := Some ''K''\<rparr>,
          example_nut ''later'' (Some ''orig'')]
   \<and> ident_nut [example_nut ''later'' (Some ''orig'')]
       (example_nut ''later'' (Some ''orig'')) Undefined
     = Inr [example_nut ''later'' (Some ''orig'')]"
proof -
  have link: "originalLoginNut (example_nut ''later'' (Some ''orig'')) = Some ''orig''"
    by (simp add: example_nut_def new_NutDBRecord_def)
  have ne: "''orig'' \<noteq> []" by simp
  have found: "getNutRecordAsync [example_nut ''orig'' None, example_nut ''later'' (Some ''orig'')]
                 ''orig'' = Some (example_nut ''orig'' None)"
    by (simp add: getNutRecordAsync_def findOne_def example_nut_def new_NutDBRecord_def)
  have missing: "getNutRecordAsync [example_nut ''later'' (Some ''orig'')] ''orig'' = None"
    by (simp add: getNutRecordAsync_def findOne_def example_nut_def new_NutDBRecord_def)
  note t = ident_updates_original_nut [OF link ne]
  from t [THEN conjunct1, rule_format, OF found, of "example_user ''K''"]
  have a: "ident_nut [example_nut ''orig'' None, example_nut ''later'' (Some ''orig'')]
             (example_nut ''later'' (Some ''orig'')) (UserDoc (example_user ''K''))
           = Inr [(example_nut ''orig'' None)\<lparr>loggedIn := True,
                    clientPrimaryIdentityPublicKey := Some ''K''\<rparr>,
                  example_nut ''later'' (Some ''orig'')]"
    by (simp add: example_nut_def new_NutDBRecord_def example_user_def)
  from t [THEN conjunct2, THEN conjunct2, THEN conjunct1, rule_format, OF missing]
  have b: "ident_nut [example_nut ''later'' (Some ''orig'')]
             (example_nut ''later'' (Some ''orig'')) Undefined
           = Inr [example_nut ''later'' (Some ''orig'')]" .
  from a b show ?thesis by (rule conjI)
qed

subsection \<open>\<open>ident\<close> for a new user\<close>

lemma ident_user_create:
  assumes "\<forall>d \<in> set users. sqrlPrimaryIdentityPublicKey d \<noteq> primaryIdentityPublicKey req
             \<and> Some (sqrlPrimaryIdentityPublicKey d) \<noteq> previousIdentityPublicKey req"
  shows "ident_user users req =
           (\<lparr>user = UserDoc (newFromClientRequestInfo req), tifValues = 0, sessionUnlockKey = None\<rparr>,
            users @ [newFromClientRequestInfo req])"
proof -
  have "find (\<lambda>d. sqrlPrimaryIdentityPublicKey d \<in> set (keyMatches req)) users = None"
    using assms by (auto simp: find_None_iff keyMatches_set)
  then show ?thesis
    by (simp add: ident_user_def findUserByEitherKey_eq new_AuthCompletionInfo_def insert_doc_def
        Let_def)
qed

lemma ident_nut_doc_ok: "\<exists>nuts'. ident_nut nuts nutInfo (UserDoc u) = Inr nuts'"
  by (simp add: ident_nut_def user_primary_key_def split: option.splits)

text \<open>
  C4. When no stored user has the request's current key or its previous key as primary
  key, \<open>ident\<close> succeeds, adds the document that \<open>newFromClientRequestInfo\<close> builds from
  the request to the user table, returns it as the user, and returns \<open>tifValues = 0\<close>. The
  new document carries the request's current key, its two unlock keys and its two option
  flags.
\<close>

theorem ident_creates_identity:
  assumes "\<forall>d \<in> set (userTable st).
             sqrlPrimaryIdentityPublicKey d \<noteq> primaryIdentityPublicKey req
             \<and> Some (sqrlPrimaryIdentityPublicKey d) \<noteq> previousIdentityPublicKey req"
  shows "\<exists>authInfo st'.
           ident st req nutInfo = Inr (authInfo, st')
           \<and> AuthCompletionInfo.tifValues authInfo = 0
           \<and> user authInfo = UserDoc (newFromClientRequestInfo req)
           \<and> userTable st' = userTable st @ [newFromClientRequestInfo req]
           \<and> sqrlPrimaryIdentityPublicKey (newFromClientRequestInfo req) = primaryIdentityPublicKey req
           \<and> sqrlServerUnlockPublicKey (newFromClientRequestInfo req) = serverUnlockPublicKey req
           \<and> sqrlServerVerifyUnlockPublicKey (newFromClientRequestInfo req)
               = serverVerifyUnlockPublicKey req
           \<and> sqrlUseSqrlIdentityOnly (newFromClientRequestInfo req) = useSqrlIdentityOnly req
           \<and> sqrlHardLockSqrlUse (newFromClientRequestInfo req) = hardLockSqrlUse req"
proof -
  obtain nuts' where n: "ident_nut (nutTable st) nutInfo (UserDoc (newFromClientRequestInfo req)) = Inr nuts'"
    using ident_nut_doc_ok by blast
  have i: "ident st req nutInfo =
        Inr (\<lparr>user = UserDoc (newFromClientRequestInfo req), tifValues = 0, sessionUnlockKey = None\<rparr>,
             st\<lparr>userTable := userTable st @ [newFromClientRequestInfo req], nutTable := nuts'\<rparr>)"
    using n by (simp add: ident_def ident_user_create [OF assms])
  have f: "sqrlPrimaryIdentityPublicKey (newFromClientRequestInfo req) = primaryIdentityPublicKey req
           \<and> sqrlServerUnlockPublicKey (newFromClientRequestInfo req) = serverUnlockPublicKey req
           \<and> sqrlServerVerifyUnlockPublicKey (newFromClientRequestInfo req)
               = serverVerifyUnlockPublicKey req
           \<and> sqrlUseSqrlIdentityOnly (newFromClientRequestInfo req) = useSqrlIdentityOnly req
           \<and> sqrlHardLockSqrlUse (newFromClientRequestInfo req) = hardLockSqrlUse req"
    by (simp add: newFromClientRequestInfo_def Let_def)
  from i f show ?thesis by simp
qed

text \<open>C4, an instance: the first \<open>ident\<close> on an empty user table.\<close>

theorem ident_creates_identity_witness:
  "\<exists>authInfo st'.
     ident \<lparr>userTable = [], nutTable = [example_nut ''n1'' None]\<rparr>
       (example_request ''B'' None) (example_nut ''n1'' None) = Inr (authInfo, st')
     \<and> AuthCompletionInfo.tifValues authInfo = 0
     \<and> userTable st' = [example_user ''B'']"
proof -
  have h: "\<forall>d \<in> set (userTable \<lparr>userTable = [], nutTable = [example_nut ''n1'' None]\<rparr>).
             sqrlPrimaryIdentityPublicKey d \<noteq> primaryIdentityPublicKey (example_request ''B'' None)
             \<and> Some (sqrlPrimaryIdentityPublicKey d)
                 \<noteq> previousIdentityPublicKey (example_request ''B'' None)"
    by simp
  have n: "newFromClientRequestInfo (example_request ''B'' None) = example_user ''B''"
    by (simp add: newFromClientRequestInfo_def example_request_def example_user_def truthy_def)
  from ident_creates_identity [OF h, of "example_nut ''n1'' None"] n
  show ?thesis by auto
qed

subsection \<open>\<open>ident\<close> for a user found by the previous key\<close>

lemma ident_user_rotate:
  assumes users: "users = xs @ u # ys"
    and u: "sqrlPrimaryIdentityPublicKey u = A"
    and xs: "\<forall>d \<in> set xs. sqrlPrimaryIdentityPublicKey d \<noteq> A \<and> sqrlPrimaryIdentityPublicKey d \<noteq> B"
    and req: "primaryIdentityPublicKey req = B" "previousIdentityPublicKey req = Some A"
    and A: "A \<noteq> []" "A \<noteq> B"
  shows "ident_user users req =
           (\<lparr>user = NumReplaced 1, tifValues = PreviousIDMatch, sessionUnlockKey = None\<rparr>,
            xs @ u\<lparr>sqrlPreviousIdentityPublicKeys :=
                      Some ((case sqrlPreviousIdentityPublicKeys u of None \<Rightarrow> [] | Some ks \<Rightarrow> ks)
                            @ [Some A]),
                    sqrlPrimaryIdentityPublicKey := B\<rparr> # ys)"
proof -
  let ?P = "\<lambda>d. sqrlPrimaryIdentityPublicKey d \<in> set (keyMatches req)"
  have nx: "\<forall>d \<in> set xs. \<not> ?P d"
    using xs req by (auto simp: keyMatches_set)
  have pu: "?P u" using u req A by (simp add: keyMatches_set)
  have f: "find ?P users = Some u"
    unfolding users using nx pu by (induction xs) auto
  have nx': "\<forall>d \<in> set xs. \<not> sqrlPrimaryIdentityPublicKey d = A"
    using xs by auto
  have upd: "update_doc (\<lambda>d. sqrlPrimaryIdentityPublicKey d = A) doc users = (1, xs @ doc # ys)"
    for doc
    unfolding users update_doc_def using replace_first_split [OF nx'] u by auto
  show ?thesis
    using u req A
    by (simp add: ident_user_def findUserByEitherKey_eq f upd tif_defs)
qed

text \<open>
  The rotation in general, for a nut record without a link: the user document found by
  the previous key \<open>A\<close> gets the primary key \<open>B\<close> and \<open>A\<close> at the end of its previous
  keys, \<open>authInfo.user\<close> becomes the number of documents replaced, and the nut record
  is written back logged in, with no client key.
\<close>

lemma ident_rotation:
  assumes users: "userTable st = xs @ u # ys"
    and u: "sqrlPrimaryIdentityPublicKey u = A"
    and xs: "\<forall>d \<in> set xs. sqrlPrimaryIdentityPublicKey d \<noteq> A \<and> sqrlPrimaryIdentityPublicKey d \<noteq> B"
    and req: "primaryIdentityPublicKey req = B" "previousIdentityPublicKey req = Some A"
    and A: "A \<noteq> []" "A \<noteq> B"
    and nolink: "originalLoginNut nutInfo = None"
  shows "ident st req nutInfo =
           Inr (\<lparr>user = NumReplaced 1, tifValues = PreviousIDMatch, sessionUnlockKey = None\<rparr>,
                st\<lparr>userTable :=
                     xs @ u\<lparr>sqrlPreviousIdentityPublicKeys :=
                              Some ((case sqrlPreviousIdentityPublicKeys u of
                                       None \<Rightarrow> [] | Some ks \<Rightarrow> ks) @ [Some A]),
                            sqrlPrimaryIdentityPublicKey := B\<rparr> # ys,
                   nutTable :=
                     replace_first (\<lambda>x. nut x = nut nutInfo)
                       (nutInfo\<lparr>loggedIn := True, clientPrimaryIdentityPublicKey := None\<rparr>)
                       (nutTable st)\<rparr>)"
  using nolink
  by (simp add: ident_def ident_user_rotate [OF users u xs req A] ident_nut_def
      original_nut_record_def user_primary_key_def update_doc_snd)

text \<open>
  C1 at a concrete input. The user table holds one user with primary key \<open>A\<close>, the nut
  table one record for the nut \<open>n1\<close>; the request presents the current key \<open>B\<close> and the
  previous key \<open>A\<close>. \<open>ident\<close> returns \<open>PreviousIDMatch\<close>, the stored user gets the primary
  key \<open>B\<close> and \<open>A\<close> in its previous keys, and the nut record is marked logged in, but
  its client primary identity key is not \<open>B\<close>: it is unset, because the field \<open>user\<close> of
  the result holds the number returned by the update, not the user document.
\<close>

theorem ident_rotation_nut_key_undefined:
  "ident \<lparr>userTable = [example_user ''A''], nutTable = [example_nut ''n1'' None]\<rparr>
         (example_request ''B'' (Some ''A'')) (example_nut ''n1'' None)
   = Inr (\<lparr>user = NumReplaced 1, tifValues = PreviousIDMatch, sessionUnlockKey = None\<rparr>,
          \<lparr>userTable = [(example_user ''B'')\<lparr>sqrlPreviousIdentityPublicKeys := Some [Some ''A'']\<rparr>],
           nutTable = [(example_nut ''n1'' None)\<lparr>loggedIn := True,
                         clientPrimaryIdentityPublicKey := None\<rparr>]\<rparr>)"
  by (simp add: ident_def ident_user_def findUserByEitherKey_eq keyMatches_def update_doc_def
      ident_nut_def original_nut_record_def user_primary_key_def
      example_user_def example_request_def example_nut_def new_NutDBRecord_def tif_defs)

text \<open>
  The same rotation through a later nut: when the nut record passed in links to an
  original nut whose record is still stored, that original record is the one written
  back, logged in and with no client key.
\<close>

lemma ident_rotation_linked:
  assumes users: "userTable st = xs @ u # ys"
    and u: "sqrlPrimaryIdentityPublicKey u = A"
    and xs: "\<forall>d \<in> set xs. sqrlPrimaryIdentityPublicKey d \<noteq> A \<and> sqrlPrimaryIdentityPublicKey d \<noteq> B"
    and req: "primaryIdentityPublicKey req = B" "previousIdentityPublicKey req = Some A"
    and A: "A \<noteq> []" "A \<noteq> B"
    and link: "originalLoginNut nutInfo = Some orig" "orig \<noteq> []"
    and found: "getNutRecordAsync (nutTable st) orig = Some r"
  shows "ident st req nutInfo =
           Inr (\<lparr>user = NumReplaced 1, tifValues = PreviousIDMatch, sessionUnlockKey = None\<rparr>,
                st\<lparr>userTable :=
                     xs @ u\<lparr>sqrlPreviousIdentityPublicKeys :=
                              Some ((case sqrlPreviousIdentityPublicKeys u of
                                       None \<Rightarrow> [] | Some ks \<Rightarrow> ks) @ [Some A]),
                            sqrlPrimaryIdentityPublicKey := B\<rparr> # ys,
                   nutTable :=
                     replace_first (\<lambda>x. nut x = orig)
                       (r\<lparr>loggedIn := True, clientPrimaryIdentityPublicKey := None\<rparr>)
                       (nutTable st)\<rparr>)"
  using found getNutRecordAsync_nut [OF found]
  by (simp add: ident_def ident_user_rotate [OF users u xs req A] ident_nut_def
      original_nut_record_link [OF link] user_primary_key_def update_doc_snd)

text \<open>
  C3 at a concrete input. The user table holds one user with primary key \<open>A\<close>; the nut
  table holds the original nut \<open>orig\<close> and a later nut that links to it; the request
  presents the current key \<open>B\<close> and the previous key \<open>A\<close>, and the login is completed
  with the later nut's record. The record of \<open>orig\<close> is the one that is changed and the
  later record stays as it is, but the change is \<open>loggedIn = true\<close> only: the client
  primary identity key of the original record is not set, because the field \<open>user\<close> of
  the result holds the number returned by the update, not the user document.
\<close>

theorem ident_linked_rotation_nut_key_undefined:
  "ident \<lparr>userTable = [example_user ''A''],
          nutTable = [example_nut ''orig'' None, example_nut ''later'' (Some ''orig'')]\<rparr>
         (example_request ''B'' (Some ''A'')) (example_nut ''later'' (Some ''orig''))
   = Inr (\<lparr>user = NumReplaced 1, tifValues = PreviousIDMatch, sessionUnlockKey = None\<rparr>,
          \<lparr>userTable = [(example_user ''B'')\<lparr>sqrlPreviousIdentityPublicKeys := Some [Some ''A'']\<rparr>],
           nutTable = [(example_nut ''orig'' None)\<lparr>loggedIn := True,
                         clientPrimaryIdentityPublicKey := None\<rparr>,
                       example_nut ''later'' (Some ''orig'')]\<rparr>)"
  by (simp add: ident_def ident_user_def findUserByEitherKey_eq keyMatches_def update_doc_def
      ident_nut_def original_nut_record_def user_primary_key_def getNutRecordAsync_def
      findOne_def example_user_def example_request_def example_nut_def new_NutDBRecord_def
      tif_defs)

subsection \<open>Polling a nut\<close>

text \<open>
  C8. A poll of a nut whose record exists and is marked logged in, but has no client
  primary identity key (it is unset or empty), answers with \<open>loggedIn = false\<close> and no
  redirect. An answer with \<open>loggedIn = true\<close> is given only when the record exists, is
  marked logged in and has a client primary identity key.
\<close>

theorem pollNut_pending_without_key:
  assumes n: "n \<noteq> []"
  shows
    "(\<forall>r. getNutRecordAsync (nutTable st) n = Some r \<and> loggedIn r
           \<and> \<not> truthy (clientPrimaryIdentityPublicKey r)
        \<longrightarrow> pollNut login findErr st (Some n) = SendNutPollResult False None)
     \<and> (\<forall>redirectTo. pollNut login findErr st (Some n) = SendNutPollResult True redirectTo
        \<longrightarrow> (\<exists>r. getNutRecordAsync (nutTable st) n = Some r \<and> loggedIn r
               \<and> truthy (clientPrimaryIdentityPublicKey r)))"
  using n
  by (auto simp: pollNut_def truthy_def split: option.splits if_splits)

text \<open>C8, an instance: a record that is marked logged in and has no key.\<close>

theorem pollNut_pending_without_key_witness:
  "pollNut (\<lambda>u. None) None
     \<lparr>userTable = [], nutTable = [(example_nut ''n1'' None)\<lparr>loggedIn := True\<rparr>]\<rparr> (Some ''n1'')
   = SendNutPollResult False None"
proof -
  have n: "''n1'' \<noteq> []" by simp
  have h: "getNutRecordAsync
             (nutTable \<lparr>userTable = [], nutTable = [(example_nut ''n1'' None)\<lparr>loggedIn := True\<rparr>]\<rparr>)
             ''n1'' = Some ((example_nut ''n1'' None)\<lparr>loggedIn := True\<rparr>)
           \<and> loggedIn ((example_nut ''n1'' None)\<lparr>loggedIn := True\<rparr>)
           \<and> \<not> truthy (clientPrimaryIdentityPublicKey ((example_nut ''n1'' None)\<lparr>loggedIn := True\<rparr>))"
    by (simp add: getNutRecordAsync_def findOne_def example_nut_def new_NutDBRecord_def truthy_def)
  from pollNut_pending_without_key [OF n, THEN conjunct1, rule_format, OF h]
  show ?thesis .
qed

section \<open>Properties of the server response parser\<close>

subsection \<open>Splitting a string\<close>

lemma split_on_Nil: "split_on c [] = [[]]"
  by (simp add: split_on.simps)

lemma split_on_Cons:
  "split_on c (x # xs) =
     (if x = c then [] # split_on c xs
      else (case split_on c xs of [] \<Rightarrow> [[x]] | y # ys \<Rightarrow> (x # y) # ys))"
proof (cases "x = c")
  case True
  then show ?thesis by (subst split_on.simps) simp
next
  case False
  have l: "split_on c (x # xs) =
             (case dropWhile (\<lambda>y. y \<noteq> c) xs of
                [] \<Rightarrow> [x # takeWhile (\<lambda>y. y \<noteq> c) xs]
              | _ # rest \<Rightarrow> (x # takeWhile (\<lambda>y. y \<noteq> c) xs) # split_on c rest)"
    using False by (subst split_on.simps) (simp cong: list.case_cong)
  have r: "split_on c xs =
             (case dropWhile (\<lambda>y. y \<noteq> c) xs of
                [] \<Rightarrow> [takeWhile (\<lambda>y. y \<noteq> c) xs]
              | _ # rest \<Rightarrow> takeWhile (\<lambda>y. y \<noteq> c) xs # split_on c rest)"
    by (rule split_on.simps)
  show ?thesis
  proof (cases "dropWhile (\<lambda>y. y \<noteq> c) xs")
    case Nil
    with False l r show ?thesis by simp
  next
    case (Cons d rest)
    with False l r show ?thesis by simp
  qed
qed

lemma split_on_not_Nil: "split_on c s \<noteq> []"
  by (subst split_on.simps) (simp split: list.splits)


lemma split_on_no_sep: "c \<notin> set s \<Longrightarrow> split_on c s = [s]"
  by (induction s) (auto simp: split_on_Nil split_on_Cons)

lemma split_on_append: "c \<notin> set a \<Longrightarrow> split_on c (a @ c # b) = a # split_on c b"
  by (induction a) (auto simp: split_on_Cons)

subsection \<open>Numbers and the loop of a range\<close>







lemma push_range_done: "\<not> js_le i hi \<Longrightarrow> push_range i hi vs = Some vs"
  by (subst push_range.simps) simp




subsection \<open>Expanding the version list\<close>







subsection \<open>A range that descends\<close>

lemma split_on_range:
  assumes "CHR ''-'' \<notin> set lo" and "CHR ''-'' \<notin> set hi"
  shows "split_on CHR ''-'' (lo @ ''-'' @ hi) = [lo, hi]"
  using assms by (simp add: split_on_append split_on_no_sep)

text \<open>
  C9. A range token \<open>lo-hi\<close> whose bounds read as integers with \<open>lo\<close> greater than
  \<open>hi\<close> adds no version and raises no error. A \<open>ver\<close> value that is such a token
  expands to the empty list, and a server body with that \<open>ver\<close> value, the required
  \<open>nut\<close>, \<open>tif\<close> and \<open>qry\<close> and an \<open>ask\<close> that is absent or readable parses to a
  response with no supported protocol version.
\<close>

theorem descending_range_gives_no_versions:
  assumes lo: "CHR ''-'' \<notin> set lo" "CHR '','' \<notin> set lo"
    and hi: "CHR ''-'' \<notin> set hi" "CHR '','' \<notin> set hi"
    and nums: "js_Number lo = Num l" "js_Number hi = Num h"
    and desc: "h < l"
  shows "expand_token vs (lo @ ''-'' @ hi) = Some (Inr vs)
         \<and> expand_ver (lo @ ''-'' @ hi) = Some (Inr [])
         \<and> (props ''ver'' = Some (lo @ ''-'' @ hi) \<and> truthy (props ''nut'')
              \<and> truthy (props ''tif'') \<and> truthy (props ''qry'')
              \<and> read_ask (props ''ask'') = Inr a
            \<longrightarrow> (\<exists>r. parseServerBody props = Some (Inr r) \<and> supportedProtocolVersions r = []))"
proof -
  have p: "push_range (Num l) (Num h) ws = Some ws" for ws
    using desc by (simp add: push_range_done)
  have a: "expand_token ws (lo @ ''-'' @ hi) = Some (Inr ws)" for ws
    using split_on_range [OF lo(1) hi(1)] nums p [of ws] by (simp add: expand_token_def)
  have c: "split_on CHR '','' (lo @ ''-'' @ hi) = [lo @ ''-'' @ hi]"
    using lo(2) hi(2) by (simp add: split_on_no_sep)
  have b: "expand_ver (lo @ ''-'' @ hi) = Some (Inr [])"
    using a [of "[]"] c by (simp add: expand_ver_def)
  have q: "props ''ver'' = Some (lo @ ''-'' @ hi) \<and> truthy (props ''nut'')
              \<and> truthy (props ''tif'') \<and> truthy (props ''qry'')
              \<and> read_ask (props ''ask'') = Inr a
            \<longrightarrow> (\<exists>r. parseServerBody props = Some (Inr r) \<and> supportedProtocolVersions r = [])"
    using b by (simp add: parseServerBody_def)
  from a [of vs] b q show ?thesis by blast
qed

text \<open>C9, an instance: the \<open>ver\<close> value \<open>5-3\<close>.\<close>

theorem descending_range_gives_no_versions_witness:
  "expand_ver ''5-3'' = Some (Inr [])
   \<and> (\<exists>r. parseServerBody [''ver'' \<mapsto> ''5-3'', ''nut'' \<mapsto> ''n'', ''tif'' \<mapsto> ''5'', ''qry'' \<mapsto> ''/sqrl'']
            = Some (Inr r) \<and> supportedProtocolVersions r = [])"
proof -
  have 1: "CHR ''-'' \<notin> set ''5''" "CHR '','' \<notin> set ''5''" by simp_all
  have 2: "CHR ''-'' \<notin> set ''3''" "CHR '','' \<notin> set ''3''" by simp_all
  have 3: "js_Number ''5'' = Num 5" "js_Number ''3'' = Num 3" by code_simp+
  have 4: "(3::int) < 5" by simp
  have 5: "[''ver'' \<mapsto> ''5-3'', ''nut'' \<mapsto> ''n'', ''tif'' \<mapsto> ''5'', ''qry'' \<mapsto> ''/sqrl''] ''ver''
             = Some (''5'' @ ''-'' @ ''3'')
           \<and> truthy ([''ver'' \<mapsto> ''5-3'', ''nut'' \<mapsto> ''n'', ''tif'' \<mapsto> ''5'', ''qry'' \<mapsto> ''/sqrl''] ''nut'')
           \<and> truthy ([''ver'' \<mapsto> ''5-3'', ''nut'' \<mapsto> ''n'', ''tif'' \<mapsto> ''5'', ''qry'' \<mapsto> ''/sqrl''] ''tif'')
           \<and> truthy ([''ver'' \<mapsto> ''5-3'', ''nut'' \<mapsto> ''n'', ''tif'' \<mapsto> ''5'', ''qry'' \<mapsto> ''/sqrl''] ''qry'')
           \<and> read_ask ([''ver'' \<mapsto> ''5-3'', ''nut'' \<mapsto> ''n'', ''tif'' \<mapsto> ''5'', ''qry'' \<mapsto> ''/sqrl''] ''ask'')
               = Inr no_ask"
    by (simp add: truthy_def read_ask_def)
  note t = descending_range_gives_no_versions [OF 1 2 3 4]
  from t [THEN conjunct2, THEN conjunct1]
  have a: "expand_ver ''5-3'' = Some (Inr [])" by simp
  from t [THEN conjunct2, THEN conjunct2, rule_format, OF 5]
  have b: "\<exists>r. parseServerBody [''ver'' \<mapsto> ''5-3'', ''nut'' \<mapsto> ''n'', ''tif'' \<mapsto> ''5'', ''qry'' \<mapsto> ''/sqrl'']
            = Some (Inr r) \<and> supportedProtocolVersions r = []" .
  from a b show ?thesis by (rule conjI)
qed

subsection \<open>An \<open>ask\<close> without a button\<close>






section \<open>Properties of the URL generator\<close>

lemma create_path_eq:
  "(let p0 = (case pathString of None \<Rightarrow> [] | Some p \<Rightarrow> p);
        p1 = (if length p0 > 0 \<and> take 1 p0 \<noteq> ''/'' then CHR ''/'' # p0 else p0)
    in (if p1 \<noteq> [] \<and> last p1 = CHR ''?'' then butlast p1 else p1)) = spec_path pathString"
proof (cases pathString)
  case None
  then show ?thesis by (simp add: spec_path_def strip_question_def)
next
  case (Some p)
  then show ?thesis
    by (cases p) (simp_all add: spec_path_def strip_question_def Let_def)
qed

lemma create_eq_spec:
  "create secure domain n p ext friendly = spec_generate secure domain n p ext friendly"
  unfolding create_def Let_def create_path_eq [unfolded Let_def]
  by (simp add: spec_generate_def spec_scheme_def spec_x_def spec_sfn_def split: option.splits)

lemma spec_path_empty_iff: "spec_path p = [] \<longleftrightarrow> (p = None \<or> p = Some [])"
proof (cases p)
  case None
  then show ?thesis by (simp add: spec_path_def strip_question_def)
next
  case (Some s)
  then show ?thesis
    by (cases s) (auto simp: spec_path_def strip_question_def)
qed

lemma spec_path_slash: "spec_path p = [] \<or> take 1 (spec_path p) = ''/''"
proof (cases p)
  case None
  then show ?thesis by (simp add: spec_path_def strip_question_def)
next
  case (Some s)
  then show ?thesis
    by (cases s; cases "tl s") (auto simp: spec_path_def strip_question_def)
qed

text \<open>
  C6. For every call, \<open>create\<close> returns the URL that the specification describes: the
  scheme \<open>sqrl\<close> when secure and \<open>qrl\<close> otherwise, \<open>://\<close>, the domain, the path, then
  \<open>?nut=\<close> and the nut, then the \<open>&x=\<close> part and the \<open>&sfn=\<close> part. The path is empty
  exactly for an absent or empty path and otherwise starts with a slash: a path
  without a leading slash gets one, and a trailing question mark is stripped. For a
  positive domain extension and a non-empty path the \<open>&x=\<close> part carries the extension
  clamped to the length of that path; for an empty path, or an extension that is absent
  or not positive, there is no \<open>&x=\<close> part. A non-empty friendly name gives \<open>&sfn=\<close> and
  its base64url text, an absent or empty one nothing.
\<close>

theorem create_follows_specification:
  "create secure domain n p ext friendly = spec_generate secure domain n p ext friendly
   \<and> (\<exists>rest. create secure domain n p ext friendly
        = (if secure then ''sqrl'' else ''qrl'') @ ''://'' @ domain @ spec_path p
            @ ''?nut='' @ n @ rest)
   \<and> (spec_path p = [] \<longleftrightarrow> (p = None \<or> p = Some []))
   \<and> (spec_path p = [] \<or> take 1 (spec_path p) = ''/'')
   \<and> (\<forall>s. p = Some s \<and> s \<noteq> [] \<and> take 1 s \<noteq> ''/'' \<and> last s \<noteq> CHR ''?''
          \<longrightarrow> spec_path p = CHR ''/'' # s)
   \<and> (\<forall>s. p = Some s \<and> take 1 s = ''/'' \<and> last s \<noteq> CHR ''?'' \<longrightarrow> spec_path p = s)
   \<and> (\<forall>s. p = Some (s @ ''?'') \<and> take 1 (s @ ''?'') = ''/'' \<longrightarrow> spec_path p = s)
   \<and> (\<forall>x. ext = Some x \<and> 0 < x \<and> spec_path p \<noteq> []
          \<longrightarrow> (\<exists>m. 0 < m \<and> m \<le> x \<and> m \<le> int (length (spec_path p))
                  \<and> (m = x \<or> m = int (length (spec_path p)))
                  \<and> spec_x (spec_path p) ext = ''&x='' @ show_int m))
   \<and> (spec_path p = [] \<longrightarrow> spec_x (spec_path p) ext = [])
   \<and> (\<forall>x. ext = Some x \<and> x \<le> 0 \<longrightarrow> spec_x (spec_path p) ext = [])
   \<and> (ext = None \<longrightarrow> spec_x (spec_path p) ext = [])
   \<and> (\<forall>f. friendly = Some f \<and> f \<noteq> [] \<longrightarrow> spec_sfn friendly = ''&sfn='' @ base64url_encode f)
   \<and> (friendly = None \<or> friendly = Some [] \<longrightarrow> spec_sfn friendly = [])"
proof -
  have 1: "create secure domain n p ext friendly = spec_generate secure domain n p ext friendly"
    by (rule create_eq_spec)
  have 2: "\<exists>rest. create secure domain n p ext friendly
        = (if secure then ''sqrl'' else ''qrl'') @ ''://'' @ domain @ spec_path p
            @ ''?nut='' @ n @ rest"
    by (simp add: 1 spec_generate_def spec_scheme_def)
  have 3: "spec_path p = [] \<longleftrightarrow> (p = None \<or> p = Some [])" by (rule spec_path_empty_iff)
  have 4: "spec_path p = [] \<or> take 1 (spec_path p) = ''/''" by (rule spec_path_slash)
  have 5: "p = Some s \<and> s \<noteq> [] \<and> take 1 s \<noteq> ''/'' \<and> last s \<noteq> CHR ''?''
          \<longrightarrow> spec_path p = CHR ''/'' # s" for s
    by (cases s) (auto simp: spec_path_def strip_question_def)
  have 6: "p = Some s \<and> take 1 s = ''/'' \<and> last s \<noteq> CHR ''?'' \<longrightarrow> spec_path p = s" for s
    by (cases s) (auto simp: spec_path_def strip_question_def)
  have 7: "p = Some (s @ ''?'') \<and> take 1 (s @ ''?'') = ''/'' \<longrightarrow> spec_path p = s" for s
    by (cases s) (auto simp: spec_path_def strip_question_def)
  have 8: "ext = Some x \<and> 0 < x \<and> spec_path p \<noteq> []
          \<longrightarrow> (\<exists>m. 0 < m \<and> m \<le> x \<and> m \<le> int (length (spec_path p))
                  \<and> (m = x \<or> m = int (length (spec_path p)))
                  \<and> spec_x (spec_path p) ext = ''&x='' @ show_int m)" for x
  proof (intro impI, elim conjE)
    assume e: "ext = Some x" and x: "0 < x" and ne: "spec_path p \<noteq> []"
    let ?m = "min x (int (length (spec_path p)))"
    from ne have "0 < int (length (spec_path p))" by simp
    with x have "0 < ?m \<and> ?m \<le> x \<and> ?m \<le> int (length (spec_path p))
                  \<and> (?m = x \<or> ?m = int (length (spec_path p)))"
      by (auto simp: min_def)
    moreover have "spec_x (spec_path p) ext = ''&x='' @ show_int ?m"
      using e x ne by (simp add: spec_x_def)
    ultimately show "\<exists>m. 0 < m \<and> m \<le> x \<and> m \<le> int (length (spec_path p))
                  \<and> (m = x \<or> m = int (length (spec_path p)))
                  \<and> spec_x (spec_path p) ext = ''&x='' @ show_int m"
      by blast
  qed
  have 9: "spec_path p = [] \<longrightarrow> spec_x (spec_path p) ext = []"
    by (simp add: spec_x_def split: option.splits)
  have 10: "ext = Some x \<and> x \<le> 0 \<longrightarrow> spec_x (spec_path p) ext = []" for x
    by (simp add: spec_x_def)
  have 11: "ext = None \<longrightarrow> spec_x (spec_path p) ext = []"
    by (simp add: spec_x_def)
  have 12: "friendly = Some f \<and> f \<noteq> [] \<longrightarrow> spec_sfn friendly = ''&sfn='' @ base64url_encode f" for f
    by (simp add: spec_sfn_def)
  have 13: "friendly = None \<or> friendly = Some [] \<longrightarrow> spec_sfn friendly = []"
    by (auto simp: spec_sfn_def)
  from 1 2 3 4 5 6 7 8 9 10 11 12 13 show ?thesis by blast
qed

text \<open>C6, an instance with all the optional parts.\<close>

theorem create_follows_specification_witness:
  "create False ''foo.com'' ''abc123'' (Some ''login?'') (Some 99) (Some ''My Site'')
     = ''qrl://foo.com/login?nut=abc123&x=6&sfn=TXkgU2l0ZQ''"
proof -
  have "spec_generate False ''foo.com'' ''abc123'' (Some ''login?'') (Some 99) (Some ''My Site'')
     = ''qrl://foo.com/login?nut=abc123&x=6&sfn=TXkgU2l0ZQ''"
    by code_simp
  with create_follows_specification
         [of False "''foo.com''" "''abc123''" "Some ''login?''" "Some 99" "Some ''My Site''",
          THEN conjunct1]
  show ?thesis by (rule trans)
qed


section \<open>Properties of the URL canonicalisation\<close>

subsection \<open>Characters and lower case\<close>

lemma scheme_char_not_colon: "is_scheme_char c \<Longrightarrow> c \<noteq> CHR '':''"
  by (auto simp: is_scheme_char_def is_lower_def is_upper_def is_digit_def)

lemma hostname_char_plain:
  "is_hostname_char c \<Longrightarrow> c \<notin> set ''/?#'' \<and> c \<noteq> CHR ''@'' \<and> c \<noteq> CHR '':''"
  by (auto simp: is_hostname_char_def is_lower_def is_upper_def is_digit_def)

lemma digit_plain:
  "is_digit c \<Longrightarrow> c \<notin> set ''/?#'' \<and> c \<noteq> CHR ''@'' \<and> c \<noteq> CHR '':''"
  by (auto simp: is_digit_def)

lemma path_char_not_hash: "is_path_char c \<Longrightarrow> c \<noteq> CHR ''#''"
  by (auto simp: is_path_char_def is_nut_char_def is_lower_def is_upper_def is_digit_def)

lemma host_char_hostname: "is_host_char c \<Longrightarrow> is_hostname_char c \<and> \<not> is_upper c"
  by (auto simp: is_host_char_def is_hostname_char_def is_lower_def is_upper_def is_digit_def)

lemma lower_char_idem: "lower_char (lower_char c) = lower_char c"
  by (auto simp: lower_char_def is_upper_def)

lemma toLowerCase_idem: "toLowerCase (toLowerCase s) = toLowerCase s"
  by (simp add: toLowerCase_def lower_char_idem)

lemma toLowerCase_append: "toLowerCase (xs @ ys) = toLowerCase xs @ toLowerCase ys"
  by (simp add: toLowerCase_def)

lemma toLowerCase_id: "list_all (\<lambda>c. \<not> is_upper c) s \<Longrightarrow> toLowerCase s = s"
  by (induction s) (simp_all add: toLowerCase_def lower_char_def)

lemma toLowerCase_colon: "toLowerCase '':'' = '':''"
  by (simp add: toLowerCase_def lower_char_def is_upper_def)

lemma takeWhile_stop: "\<forall>x \<in> set xs. P x \<Longrightarrow> \<not> P y \<Longrightarrow> takeWhile P (xs @ y # ys) = xs"
  by (induction xs) auto

lemma dropWhile_stop: "\<forall>x \<in> set xs. P x \<Longrightarrow> \<not> P y \<Longrightarrow> dropWhile P (xs @ y # ys) = y # ys"
  by (induction xs) auto

lemma takeWhile_all: "\<forall>x \<in> set xs. P x \<Longrightarrow> takeWhile P xs = xs"
  by (induction xs) auto

lemma dropWhile_all: "\<forall>x \<in> set xs. P x \<Longrightarrow> dropWhile P (xs @ ys) = dropWhile P ys"
  by (induction xs) auto

lemma takeWhile_all_append:
  "\<forall>x \<in> set xs. P x \<Longrightarrow> takeWhile P (xs @ ys) = xs @ takeWhile P ys"
  by (induction xs) auto

lemma split_auth_none: "CHR ''@'' \<notin> set a \<Longrightarrow> split_auth a = (None, a)"
  by (simp add: split_auth_def)

lemma split_auth_some:
  assumes "CHR ''@'' \<notin> set h"
  shows "split_auth (u @ ''@'' @ h) = (Some u, h)"
proof -
  have r: "rev (u @ ''@'' @ h) = rev h @ CHR ''@'' # rev u" by simp
  have n: "\<forall>x \<in> set (rev h). x \<noteq> CHR ''@''" using assms by auto
  have t: "takeWhile (\<lambda>c. c \<noteq> CHR ''@'') (rev h @ CHR ''@'' # rev u) = rev h"
    by (rule takeWhile_stop [OF n]) simp
  have d: "dropWhile (\<lambda>c. c \<noteq> CHR ''@'') (rev h @ CHR ''@'' # rev u) = CHR ''@'' # rev u"
    by (rule dropWhile_stop [OF n]) simp
  have m: "CHR ''@'' \<in> set (u @ ''@'' @ h)" by simp
  show ?thesis unfolding split_auth_def r t d using m by simp
qed

lemma split_port_none:
  assumes "CHR '':'' \<notin> set h"
  shows "split_port h = (h, None)"
proof -
  have "take 1 (dropWhile is_digit (rev h)) \<noteq> '':''"
  proof
    assume "take 1 (dropWhile is_digit (rev h)) = '':''"
    then obtain xs where "dropWhile is_digit (rev h) = CHR '':'' # xs"
      by (cases "dropWhile is_digit (rev h)") auto
    then have "CHR '':'' \<in> set (dropWhile is_digit (rev h))" by simp
    then have "CHR '':'' \<in> set (rev h)" by (rule set_dropWhileD)
    with assms show False by simp
  qed
  then show ?thesis by (simp add: split_port_def Let_def)
qed

lemma split_port_some:
  assumes "list_all is_digit p"
  shows "split_port (h @ '':'' @ p) = (h, if p = [] then None else Some p)"
proof -
  have nd: "\<not> is_digit CHR '':''" by (simp add: is_digit_def)
  have r: "rev (h @ '':'' @ p) = rev p @ CHR '':'' # rev h" by simp
  have n: "\<forall>x \<in> set (rev p). is_digit x" using assms by (simp add: list_all_iff)
  have t: "takeWhile is_digit (rev p @ CHR '':'' # rev h) = rev p"
    by (rule takeWhile_stop [OF n nd])
  have d: "dropWhile is_digit (rev p @ CHR '':'' # rev h) = CHR '':'' # rev h"
    by (rule dropWhile_stop [OF n nd])
  show ?thesis unfolding split_port_def r t d by simp
qed

lemma host_port_plain:
  assumes "list_all is_hostname_char host"
    and "case prt of None \<Rightarrow> True | Some p \<Rightarrow> list_all is_digit p"
    and "c \<in> set (host @ (case prt of None \<Rightarrow> [] | Some p \<Rightarrow> '':'' @ p))"
  shows "c \<notin> set ''/?#'' \<and> c \<noteq> CHR ''@''"
proof (cases "c \<in> set host")
  case True
  with assms(1) have "is_hostname_char c" by (simp add: list_all_iff)
  then show ?thesis using hostname_char_plain by blast
next
  case False
  with assms(3) obtain p where p: "prt = Some p" and c: "c = CHR '':'' \<or> c \<in> set p"
    by (cases prt) auto
  from c show ?thesis
  proof
    assume "c = CHR '':''"
    then show ?thesis by simp
  next
    assume "c \<in> set p"
    with assms(2) p have "is_digit c" by (simp add: list_all_iff)
    then show ?thesis using digit_plain by blast
  qed
qed

lemma authority_split:
  assumes "wf_spelling scheme userinfo host prt"
  shows "split_auth (authority_of userinfo host prt)
           = (userinfo, host @ (case prt of None \<Rightarrow> [] | Some p \<Rightarrow> '':'' @ p))"
    and "split_port (host @ (case prt of None \<Rightarrow> [] | Some p \<Rightarrow> '':'' @ p))
           = (host, case prt of None \<Rightarrow> None | Some p \<Rightarrow> if p = [] then None else Some p)"
    and "\<forall>c \<in> set (authority_of userinfo host prt). c \<notin> set ''/?#''"
proof -
  let ?hp = "host @ (case prt of None \<Rightarrow> [] | Some p \<Rightarrow> '':'' @ p)"
  have wh: "list_all is_hostname_char host"
    and wp: "case prt of None \<Rightarrow> True | Some p \<Rightarrow> list_all is_digit p"
    and wu: "case userinfo of None \<Rightarrow> True | Some u \<Rightarrow> list_all (\<lambda>c. c \<notin> set ''/?#'') u"
    using assms by (simp_all add: wf_spelling_def)
  have hp: "c \<in> set ?hp \<Longrightarrow> c \<notin> set ''/?#'' \<and> c \<noteq> CHR ''@''" for c
    by (rule host_port_plain [OF wh wp])
  have hp_at: "CHR ''@'' \<notin> set ?hp"
    using hp [of "CHR ''@''"] by blast
  show "split_auth (authority_of userinfo host prt) = (userinfo, ?hp)"
  proof (cases userinfo)
    case None
    have "authority_of userinfo host prt = ?hp" by (simp add: authority_of_def None)
    then show ?thesis using split_auth_none [OF hp_at] None by simp
  next
    case (Some u)
    have "authority_of userinfo host prt = u @ ''@'' @ ?hp" by (simp add: authority_of_def Some)
    then show ?thesis using split_auth_some [OF hp_at, of u] Some by simp
  qed
  show "split_port ?hp
           = (host, case prt of None \<Rightarrow> None | Some p \<Rightarrow> if p = [] then None else Some p)"
  proof (cases prt)
    case None
    have "CHR '':'' \<notin> set host"
    proof
      assume "CHR '':'' \<in> set host"
      with wh have "is_hostname_char CHR '':''" by (simp add: list_all_iff)
      then show False using hostname_char_plain by blast
    qed
    then show ?thesis using split_port_none [of host] None by simp
  next
    case (Some q)
    with wp have "list_all is_digit q" by simp
    from split_port_some [OF this, of host] Some show ?thesis by simp
  qed
  show "\<forall>c \<in> set (authority_of userinfo host prt). c \<notin> set ''/?#''"
  proof
    fix c
    assume c: "c \<in> set (authority_of userinfo host prt)"
    show "c \<notin> set ''/?#''"
    proof (cases "c \<in> set ?hp")
      case True
      then show ?thesis using hp by blast
    next
      case False
      with c obtain u where u: "userinfo = Some u" and cu: "c \<in> set u \<or> c = CHR ''@''"
        by (cases userinfo) (auto simp: authority_of_def)
      from cu show ?thesis
      proof
        assume "c \<in> set u"
        with wu u show ?thesis by (simp add: list_all_iff)
      next
        assume "c = CHR ''@''"
        then show ?thesis by simp
      qed
    qed
  qed
qed

lemma url_parse_parts:
  assumes wf: "wf_spelling scheme userinfo host prt"
    and rest: "rest = [] \<or> take 1 rest = ''/'' \<or> take 1 rest = ''?''"
    and hash: "CHR ''#'' \<notin> set rest"
  shows "url_parse (url_of_parts scheme userinfo host prt rest) =
           \<lparr>protocol = Some (toLowerCase scheme @ '':''), auth = userinfo,
            hostname = Some (toLowerCase host),
            port = (case prt of None \<Rightarrow> None | Some p \<Rightarrow> if p = [] then None else Some p),
            path = (if rest = [] then None else Some rest)\<rparr>"
proof -
  let ?a = "authority_of userinfo host prt"
  let ?hp = "host @ (case prt of None \<Rightarrow> [] | Some p \<Rightarrow> '':'' @ p)"
  let ?u = "scheme @ CHR '':'' # (''//'' @ ?a @ rest)"
  have u: "url_of_parts scheme userinfo host prt rest = ?u"
    by (simp add: url_of_parts_def authority_of_def)
  have sc: "\<forall>c \<in> set scheme. is_scheme_char c" and ne: "scheme \<noteq> []"
    using wf by (simp_all add: wf_spelling_def list_all_iff)
  have nc: "\<not> is_scheme_char CHR '':''" using scheme_char_not_colon by blast
  have pre: "takeWhile is_scheme_char ?u = scheme"
    by (rule takeWhile_stop [OF sc nc])
  have aft: "dropWhile is_scheme_char ?u = CHR '':'' # (''//'' @ ?a @ rest)"
    by (rule dropWhile_stop [OF sc nc])
  have rest0: "drop 1 (CHR '':'' # (''//'' @ ?a @ rest)) = ''//'' @ ?a @ rest" by simp
  have slashes: "take 2 (''//'' @ ?a @ rest) = ''//''" by simp
  have rest1: "drop 2 (''//'' @ ?a @ rest) = ?a @ rest" by simp
  have plain: "\<forall>c \<in> set ?a. c \<notin> set ''/?#''"
    by (rule authority_split(3) [OF wf])
  have stop: "takeWhile (\<lambda>c. c \<notin> set ''/?#'') rest = []"
    using rest by (cases rest) auto
  have au: "takeWhile (\<lambda>c. c \<notin> set ''/?#'') (?a @ rest) = ?a"
    using takeWhile_all_append [OF plain, of rest] stop by simp
  have stop': "dropWhile (\<lambda>c. c \<notin> set ''/?#'') rest = rest"
    using rest by (cases rest) auto
  have tl: "dropWhile (\<lambda>c. c \<notin> set ''/?#'') (?a @ rest) = rest"
    using dropWhile_all [OF plain, of rest] stop' by simp
  have hash': "\<forall>x \<in> set rest. x \<noteq> CHR ''#''" using hash by blast
  have pq: "takeWhile (\<lambda>c. c \<noteq> CHR ''#'') rest = rest"
    by (rule takeWhile_all [OF hash'])
  have colon: "take 1 (CHR '':'' # (''//'' @ ?a @ rest)) = '':''" by simp
  have "url_parse ?u =
          (let (au, hostport) = split_auth ?a;
               (h, po) = split_port hostport
           in \<lparr>protocol = Some (toLowerCase scheme @ '':''), auth = au,
                hostname = Some (toLowerCase h), port = po,
                path = (if rest = [] then None else Some rest)\<rparr>)"
    using ne pre aft au tl by (simp add: url_parse_def Let_def pq)
  also have "\<dots> = \<lparr>protocol = Some (toLowerCase scheme @ '':''), auth = userinfo,
            hostname = Some (toLowerCase host),
            port = (case prt of None \<Rightarrow> None | Some p \<Rightarrow> if p = [] then None else Some p),
            path = (if rest = [] then None else Some rest)\<rparr>"
    by (simp only: authority_split(1,2) [OF wf] Let_def prod.case)
  finally show ?thesis unfolding u .
qed

lemma canonicalize_parts:
  assumes wf: "wf_spelling scheme userinfo host prt"
    and rest: "rest = [] \<or> take 1 rest = ''/'' \<or> take 1 rest = ''?''"
    and hash: "CHR ''#'' \<notin> set rest"
  shows "canonicalizeSqrlUrl (url_of_parts scheme userinfo host prt rest)
           = toLowerCase scheme @ ''://'' @ toLowerCase host @ rest"
proof -
  have l: "toLowerCase (toLowerCase scheme @ '':'') = toLowerCase scheme @ '':''"
    by (simp only: toLowerCase_append toLowerCase_idem toLowerCase_colon)
  show ?thesis
    unfolding canonicalizeSqrlUrl_def url_parse_parts [OF assms] Let_def
    by (simp add: or_empty_def truthy_def l toLowerCase_idem)
qed

subsection \<open>Generated URLs\<close>

lemma spec_scheme_lower: "toLowerCase (spec_scheme secure) = spec_scheme secure"
  by (simp add: spec_scheme_def toLowerCase_def lower_char_def is_upper_def)

lemma spec_scheme_chars: "spec_scheme secure \<noteq> [] \<and> list_all is_scheme_char (spec_scheme secure)"
  by (simp add: spec_scheme_def is_scheme_char_def is_lower_def)

lemma wf_domain_spelling:
  assumes "wf_domain domain"
  shows "wf_spelling (spec_scheme secure) None domain None" and "toLowerCase domain = domain"
proof -
  from assms have h: "\<forall>c \<in> set domain. is_host_char c" by (simp add: wf_domain_def list_all_iff)
  then have "list_all is_hostname_char domain"
    using host_char_hostname by (auto simp: list_all_iff)
  then show "wf_spelling (spec_scheme secure) None domain None"
    using spec_scheme_chars by (simp add: wf_spelling_def)
  from h have "list_all (\<lambda>c. \<not> is_upper c) domain"
    using host_char_hostname by (auto simp: list_all_iff)
  then show "toLowerCase domain = domain" by (rule toLowerCase_id)
qed

lemma set_prefix_slash: "set (prefix_slash s) \<subseteq> insert CHR ''/'' (set s)"
  by (cases s) auto

lemma set_strip_question: "set (strip_question s) \<subseteq> set s"
  by (auto simp: strip_question_def dest: in_set_butlastD)

lemma spec_path_no_hash:
  assumes "wf_path p"
  shows "CHR ''#'' \<notin> set (spec_path p)"
proof
  let ?s = "case p of None \<Rightarrow> [] | Some s \<Rightarrow> s"
  assume h: "CHR ''#'' \<in> set (spec_path p)"
  have s1: "set (spec_path p) \<subseteq> set (prefix_slash ?s)"
    unfolding spec_path_def by (rule set_strip_question)
  have s2: "set (prefix_slash ?s) \<subseteq> insert CHR ''/'' (set ?s)"
    by (rule set_prefix_slash)
  from subsetD [OF s1 h] have "CHR ''#'' \<in> set (prefix_slash ?s)" .
  from subsetD [OF s2 this] have "CHR ''#'' \<in> insert CHR ''/'' (set ?s)" .
  then have "CHR ''#'' \<in> set ?s" by simp
  then obtain s where "p = Some s" and "CHR ''#'' \<in> set s"
    by (cases p) simp_all
  with assms have "is_path_char CHR ''#''" by (simp add: wf_path_def list_all_iff)
  then show False using path_char_not_hash by blast
qed

lemma generated_rest:
  assumes "wf_nut n" and "wf_path p"
  shows "spec_path p @ ''?nut='' @ n = [] \<or> take 1 (spec_path p @ ''?nut='' @ n) = ''/''
           \<or> take 1 (spec_path p @ ''?nut='' @ n) = ''?''"
    and "CHR ''#'' \<notin> set (spec_path p @ ''?nut='' @ n)"
proof -
  show "spec_path p @ ''?nut='' @ n = [] \<or> take 1 (spec_path p @ ''?nut='' @ n) = ''/''
           \<or> take 1 (spec_path p @ ''?nut='' @ n) = ''?''"
    using spec_path_slash [of p] by (cases "spec_path p") auto
  have "CHR ''#'' \<notin> set n"
  proof
    assume "CHR ''#'' \<in> set n"
    with assms(1) have "is_nut_char CHR ''#''" by (simp add: wf_nut_def list_all_iff)
    then have "is_path_char CHR ''#''" by (simp add: is_path_char_def)
    then show False using path_char_not_hash by blast
  qed
  with spec_path_no_hash [OF assms(2)]
  show "CHR ''#'' \<notin> set (spec_path p @ ''?nut='' @ n)" by simp
qed

lemma create_as_parts:
  "create secure domain n p None None
     = url_of_parts (spec_scheme secure) None domain None (spec_path p @ ''?nut='' @ n)"
  by (simp add: create_eq_spec spec_generate_def url_of_parts_def spec_x_def spec_sfn_def)

text \<open>
  C5. For a secure flag, a well-formed lower-case domain, a well-formed nut and a
  well-formed path, the URL that \<open>create\<close> generates is a fixed point of
  \<open>canonicalizeSqrlUrl\<close>, so canonicalising it twice gives the same as once. Every other
  spelling of that URL (a scheme and a host with capitals, user information, a port,
  and the same path and query) has the same canonical form: scheme and host lower-cased,
  user information and port dropped, path and query kept as they are.
\<close>

theorem canonicalize_generated_url:
  assumes d: "wf_domain domain" and n: "wf_nut n" and p: "wf_path p"
  shows "canonicalizeSqrlUrl (create secure domain n p None None)
           = create secure domain n p None None
         \<and> canonicalizeSqrlUrl (canonicalizeSqrlUrl (create secure domain n p None None))
           = canonicalizeSqrlUrl (create secure domain n p None None)
         \<and> (\<forall>scheme userinfo host prt.
              wf_spelling scheme userinfo host prt \<and> toLowerCase scheme = spec_scheme secure
              \<and> toLowerCase host = domain
              \<longrightarrow> canonicalizeSqrlUrl
                    (url_of_parts scheme userinfo host prt (spec_path p @ ''?nut='' @ n))
                  = canonicalizeSqrlUrl (create secure domain n p None None))"
proof -
  let ?rest = "spec_path p @ ''?nut='' @ n"
  let ?url = "create secure domain n p None None"
  note r = generated_rest [OF n p]
  have parts: "canonicalizeSqrlUrl (url_of_parts scheme userinfo host prt ?rest)
                 = toLowerCase scheme @ ''://'' @ toLowerCase host @ ?rest"
    if "wf_spelling scheme userinfo host prt" for scheme userinfo host prt
    by (rule canonicalize_parts [OF that r])
  have u: "?url = spec_scheme secure @ ''://'' @ domain @ ?rest"
    unfolding create_as_parts url_of_parts_def by simp
  have "canonicalizeSqrlUrl ?url
          = canonicalizeSqrlUrl (url_of_parts (spec_scheme secure) None domain None ?rest)"
    by (simp only: create_as_parts)
  also have "\<dots> = toLowerCase (spec_scheme secure) @ ''://'' @ toLowerCase domain @ ?rest"
    by (rule parts [OF wf_domain_spelling(1) [OF d]])
  also have "\<dots> = spec_scheme secure @ ''://'' @ domain @ ?rest"
    by (simp only: spec_scheme_lower wf_domain_spelling(2) [OF d])
  also have "\<dots> = ?url" by (rule u [symmetric])
  finally have fp: "canonicalizeSqrlUrl ?url = ?url" .
  have idem: "canonicalizeSqrlUrl (canonicalizeSqrlUrl ?url) = canonicalizeSqrlUrl ?url"
    by (simp only: fp)
  have other: "wf_spelling scheme userinfo host prt \<and> toLowerCase scheme = spec_scheme secure
              \<and> toLowerCase host = domain
              \<longrightarrow> canonicalizeSqrlUrl (url_of_parts scheme userinfo host prt ?rest)
                  = canonicalizeSqrlUrl ?url" for scheme userinfo host prt
  proof (intro impI, elim conjE)
    assume w: "wf_spelling scheme userinfo host prt"
      and s: "toLowerCase scheme = spec_scheme secure" and h: "toLowerCase host = domain"
    have "canonicalizeSqrlUrl (url_of_parts scheme userinfo host prt ?rest)
            = toLowerCase scheme @ ''://'' @ toLowerCase host @ ?rest"
      by (rule parts [OF w])
    also have "\<dots> = spec_scheme secure @ ''://'' @ domain @ ?rest"
      by (simp only: s h)
    also have "\<dots> = ?url" by (rule u [symmetric])
    also have "\<dots> = canonicalizeSqrlUrl ?url" by (rule fp [symmetric])
    finally show "canonicalizeSqrlUrl (url_of_parts scheme userinfo host prt ?rest)
            = canonicalizeSqrlUrl ?url" .
  qed
  from fp idem other show ?thesis by blast
qed

text \<open>
  C5, an instance: a generated URL with a capital in its path, and a spelling of it with
  capitals in scheme and host, user information and a port.
\<close>

theorem canonicalize_generated_url_witness:
  "canonicalizeSqrlUrl (create True ''foo.com'' ''abc123'' (Some ''Login'') None None)
     = ''sqrl://foo.com/Login?nut=abc123''
   \<and> canonicalizeSqrlUrl ''SQrL://user:pw@FOO.com:12345/Login?nut=abc123''
     = ''sqrl://foo.com/Login?nut=abc123''"
proof -
  have d: "wf_domain ''foo.com''" by code_simp
  have n: "wf_nut ''abc123''" by code_simp
  have p: "wf_path (Some ''Login'')" by code_simp
  have c: "create True ''foo.com'' ''abc123'' (Some ''Login'') None None
             = ''sqrl://foo.com/Login?nut=abc123''"
    by code_simp
  note t = canonicalize_generated_url [OF d n p, of True]
  have w: "wf_spelling ''SQrL'' (Some ''user:pw'') ''FOO.com'' (Some ''12345'')
           \<and> toLowerCase ''SQrL'' = spec_scheme True \<and> toLowerCase ''FOO.com'' = ''foo.com''"
    by code_simp
  have v: "url_of_parts ''SQrL'' (Some ''user:pw'') ''FOO.com'' (Some ''12345'')
             (spec_path (Some ''Login'') @ ''?nut='' @ ''abc123'')
           = ''SQrL://user:pw@FOO.com:12345/Login?nut=abc123''"
    by code_simp
  from t [THEN conjunct1] have a: "canonicalizeSqrlUrl
       (create True ''foo.com'' ''abc123'' (Some ''Login'') None None)
     = ''sqrl://foo.com/Login?nut=abc123''"
    unfolding c .
  from t [THEN conjunct2, THEN conjunct2, rule_format, OF w]
  have "canonicalizeSqrlUrl ''SQrL://user:pw@FOO.com:12345/Login?nut=abc123''
     = canonicalizeSqrlUrl (create True ''foo.com'' ''abc123'' (Some ''Login'') None None)"
    unfolding v .
  then have b: "canonicalizeSqrlUrl ''SQrL://user:pw@FOO.com:12345/Login?nut=abc123''
     = ''sqrl://foo.com/Login?nut=abc123''"
    using a by (rule trans)
  from a b show ?thesis by (rule conjI)
qed


end
